theory Spec2Isabelle
  imports Complex_Main
begin

section \<open>The access guard of the documentation site (src/middleware.ts)\<close>

text \<open>
  The middleware is one async function. It reads the request's path and two headers,
  makes at most one outbound \<^verbatim>\<open>fetch\<close>, reads the answer's status, content type and JSON
  body, and returns one of three responses. The embedding keeps that shape:
  \<^item> strings are \<open>string\<close>; \<^verbatim>\<open>startsWith\<close> and \<^verbatim>\<open>includes\<close> are recursive functions;
  \<^item> a \<^verbatim>\<open>Headers\<close> object is a map from (lower-case) names to values;
  \<^item> the URL is a record of the components the code touches, the query held as the list
    of pairs behind \<^verbatim>\<open>searchParams\<close>;
  \<^item> a value produced by \<^verbatim>\<open>JSON.parse\<close> is the datatype \<open>json\<close>; a JavaScript value that
    may also be \<^verbatim>\<open>undefined\<close> is \<open>json option\<close>;
  \<^item> an awaited call that may throw returns an \<open>outcome\<close>;
  \<^item> the effects (the outbound call, reading the body) are logged in a list of events
    returned next to the result.
  A second embedding keeps the URL and headers objects in a store, with \<^verbatim>\<open>clone()\<close>,
  \<^verbatim>\<open>new Headers()\<close> and the assignments as store updates; it is shown to compute what the
  first computes and to leave the request's objects as they were.
\<close>

subsection \<open>Strings\<close>

text \<open>
  The source compares paths and a header value with ASCII literals only, by prefix, by
  substring and by equality; on such literals the answers are the same whether a string
  is read as UTF-16 code units, as the source does, or as bytes, as \<open>string\<close> does.
\<close>

text \<open>\<^verbatim>\<open>s.startsWith(p)\<close>.\<close>

fun startsWith :: "string \<Rightarrow> string \<Rightarrow> bool" where
  "startsWith s [] = True"
| "startsWith [] (c # cs) = False"
| "startsWith (x # xs) (c # cs) = (x = c \<and> startsWith xs cs)"

text \<open>\<^verbatim>\<open>s.includes(t)\<close>: \<open>t\<close> starts at some position of \<open>s\<close>.\<close>

fun includes_str :: "string \<Rightarrow> string \<Rightarrow> bool" where
  "includes_str [] t = (t = [])"
| "includes_str (x # xs) t = (startsWith (x # xs) t \<or> includes_str xs t)"

subsection \<open>URLs, headers, requests\<close>

text \<open>
  \<^verbatim>\<open>request.nextUrl\<close>. \<open>search\<close> is the query as \<^verbatim>\<open>searchParams\<close> sees it: the list of
  its name/value pairs, \<open>[]\<close> for the empty query that \<^verbatim>\<open>url.search = ""\<close> sets.
\<close>

record url =
  protocol :: string
  host :: string
  port :: string
  pathname :: string
  search :: "(string \<times> string) list"

text \<open>
  \<^verbatim>\<open>searchParams.set(name, value)\<close>: the first pair of that name takes the value and the
  other pairs of that name are removed; with no such pair, a new one is appended.
\<close>

fun searchParams_set :: "(string \<times> string) list \<Rightarrow> string \<Rightarrow> string \<Rightarrow> (string \<times> string) list" where
  "searchParams_set [] k v = [(k, v)]"
| "searchParams_set (p # ps) k v =
     (if fst p = k then (k, v) # filter (\<lambda>q. fst q \<noteq> k) ps
      else p # searchParams_set ps k v)"

text \<open>\<^verbatim>\<open>searchParams.get(name)\<close>: the value of the first pair of that name.\<close>

definition searchParams_get :: "(string \<times> string) list \<Rightarrow> string \<Rightarrow> string option" where
  "searchParams_get ps k = map_of ps k"

type_synonym headers = "string \<rightharpoonup> string"

record request =
  nextUrl :: url
  req_headers :: headers

subsection \<open>The outbound call and its answer\<close>

text \<open>What is handed to \<^verbatim>\<open>fetch\<close>: the URL, and the \<^verbatim>\<open>method\<close>, \<^verbatim>\<open>headers\<close> and
  \<^verbatim>\<open>body\<close> of its init object (the source gives no body).\<close>

record fetch_call =
  fc_url :: url
  fc_method :: string
  fc_headers :: headers
  fc_body :: "string option"

text \<open>An awaited call that settles either throws or returns.\<close>

datatype 'a outcome = Throws | Returns 'a

text \<open>
  A value as \<^verbatim>\<open>JSON.parse\<close> builds it. Of a number only its being zero is ever observed
  (truthiness); an infinity, which a literal too large for a double parses to, is truthy
  like every number other than zero. An object is the list of its own properties, each
  name once; the first entry of a name is the one looked up.
\<close>

datatype json =
    JNull
  | JBool bool
  | JNum rat
  | JStr string
  | JArr "json list"
  | JObj "(string \<times> json) list"

text \<open>A JavaScript value that may be \<^verbatim>\<open>undefined\<close> (\<open>None\<close>).\<close>

type_synonym jsval = "json option"

text \<open>
  The \<^verbatim>\<open>Response\<close> of the identity endpoint: its status, its headers, and what awaiting
  \<^verbatim>\<open>json()\<close> on it gives (\<open>Throws\<close> for a body that does not parse or cannot be read).
\<close>

record response =
  status :: nat
  resp_headers :: headers
  json_body :: "json outcome"

text \<open>\<^verbatim>\<open>Response.ok\<close>: the status is in the range 200 to 299.\<close>

definition ok :: "response \<Rightarrow> bool" where
  "ok r = (200 \<le> status r \<and> status r \<le> 299)"

subsection \<open>JavaScript operators on parsed values\<close>

text \<open>Truthiness, as \<^verbatim>\<open>if (v)\<close>, \<^verbatim>\<open>!v\<close> and \<^verbatim>\<open>a && b\<close> test it.\<close>

fun truthy :: "json \<Rightarrow> bool" where
  "truthy JNull = False"
| "truthy (JBool b) = b"
| "truthy (JNum n) = (n \<noteq> 0)"
| "truthy (JStr s) = (s \<noteq> [])"
| "truthy (JArr xs) = True"
| "truthy (JObj kvs) = True"

fun truthy_val :: "jsval \<Rightarrow> bool" where
  "truthy_val None = False"
| "truthy_val (Some v) = truthy v"

text \<open>Truthiness of a header value read with \<^verbatim>\<open>headers.get\<close>: \<^verbatim>\<open>null\<close> and the empty
  string are falsy.\<close>

fun truthy_str :: "string option \<Rightarrow> bool" where
  "truthy_str None = False"
| "truthy_str (Some s) = (s \<noteq> [])"

text \<open>\<^verbatim>\<open>h || d\<close> on a header value: \<open>d\<close> when \<open>h\<close> is falsy.\<close>

fun or_else :: "string option \<Rightarrow> string \<Rightarrow> string" where
  "or_else None d = d"
| "or_else (Some s) d = (if s \<noteq> [] then s else d)"

text \<open>The string that a header value holds, read only after the value was found truthy.\<close>

fun str_of :: "string option \<Rightarrow> string" where
  "str_of None = []"
| "str_of (Some s) = s"

text \<open>\<^verbatim>\<open>typeof v\<close>: \<^verbatim>\<open>null\<close>, arrays and objects are all \<^verbatim>\<open>"object"\<close>.\<close>

fun typeof :: "json \<Rightarrow> string" where
  "typeof JNull = ''object''"
| "typeof (JBool b) = ''boolean''"
| "typeof (JNum n) = ''number''"
| "typeof (JStr s) = ''string''"
| "typeof (JArr xs) = ''object''"
| "typeof (JObj kvs) = ''object''"

text \<open>
  \<^verbatim>\<open>v.name\<close> and \<^verbatim>\<open>name in v\<close>, for the five names the middleware probes: \<^verbatim>\<open>user\<close>,
  \<^verbatim>\<open>docs\<close>, \<^verbatim>\<open>doc\<close>, \<^verbatim>\<open>id\<close> and \<^verbatim>\<open>role\<close>. None of them is an index or \<^verbatim>\<open>length\<close>, and
  none is inherited from a prototype, so only an object has them, as its own
  properties. Both are applied only to values that are truthy and of type
  \<^verbatim>\<open>"object"\<close>, where neither throws.
\<close>

fun get_prop :: "json \<Rightarrow> string \<Rightarrow> jsval" where
  "get_prop (JObj kvs) k = map_of kvs k"
| "get_prop v k = None"

definition has_prop :: "string \<Rightarrow> json \<Rightarrow> bool" where
  "has_prop k v = (get_prop v k \<noteq> None)"

text \<open>\<^verbatim>\<open>Array.isArray(v)\<close>.\<close>

fun isArray :: "jsval \<Rightarrow> bool" where
  "isArray (Some (JArr xs)) = True"
| "isArray v = False"

text \<open>The elements of an array, read only after \<^verbatim>\<open>Array.isArray\<close> has held.\<close>

fun elements :: "jsval \<Rightarrow> json list" where
  "elements (Some (JArr xs)) = xs"
| "elements v = []"

text \<open>\<^verbatim>\<open>xs[0]\<close>: \<^verbatim>\<open>undefined\<close> on the empty array.\<close>

fun first_element :: "json list \<Rightarrow> jsval" where
  "first_element [] = None"
| "first_element (x # xs) = Some x"

subsection \<open>The verdicts and the events\<close>

text \<open>
  \<^verbatim>\<open>NextResponse.next()\<close>, \<^verbatim>\<open>NextResponse.redirect(url)\<close> and
  \<^verbatim>\<open>new NextResponse(body, {status})\<close>.
\<close>

datatype verdict = Next | Redirect url | Respond string nat

datatype event = Fetch fetch_call | ReadJson

subsection \<open>The middleware\<close>

text \<open>Lines 9 to 15: the paths that skip the middleware.\<close>

definition isBypassed :: "string \<Rightarrow> bool" where
  "isBypassed p =
     (startsWith p ''/admin'' \<or>
      startsWith p ''/api'' \<or>
      startsWith p ''/_next'' \<or>
      startsWith p ''/favicon.ico'' \<or>
      startsWith p ''/demo.mp4'')"

text \<open>Lines 20 to 26.\<close>

definition isFumadocsRoute :: "string \<Rightarrow> bool" where
  "isFumadocsRoute p =
     (startsWith p ''/docs'' \<or>
      p = ''/'' \<or>
      startsWith p ''/llms.txt'' \<or>
      startsWith p ''/llms.mdx'' \<or>
      startsWith p ''/llms-full.txt'' \<or>
      startsWith p ''/docs-og'')"

text \<open>
  The redirect built at lines 58 to 61, 68 to 71, 91 to 94 and 115 to 118: a clone of
  the request's URL with the path replaced and the \<^verbatim>\<open>redirect\<close> parameter set to the
  requested path.
\<close>

definition loginUrl :: "request \<Rightarrow> url" where
  "loginUrl req =
     (let u = nextUrl req;
          u = u\<lparr>pathname := ''/admin/login''\<rparr>;
          u = u\<lparr>search := searchParams_set (search u) ''redirect'' (pathname (nextUrl req))\<rparr>
      in u)"

definition redirectToLogin :: "request \<Rightarrow> verdict" where
  "redirectToLogin req = Redirect (loginUrl req)"

text \<open>Lines 37 to 43: the headers of the outbound call.\<close>

definition outboundHeaders :: "request \<Rightarrow> headers" where
  "outboundHeaders req =
     (let hs = Map.empty;
          cookieHeader = req_headers req ''cookie'';
          hs = (if truthy_str cookieHeader then hs(''cookie'' := cookieHeader) else hs);
          userAgent = req_headers req ''user-agent'';
          hs = hs(''user-agent'' \<mapsto> or_else userAgent [])
      in hs)"

text \<open>Lines 46 to 54: the call itself.\<close>

definition identityCall :: "request \<Rightarrow> fetch_call" where
  "identityCall req =
     (let u = nextUrl req;
          u = u\<lparr>pathname := ''/api/users/me''\<rparr>;
          u = u\<lparr>search := []\<rparr>
      in \<lparr>fc_url = u, fc_method = ''GET'', fc_headers = outboundHeaders req, fc_body = None\<rparr>)"

text \<open>Lines 78 to 87: the candidate user inside the parsed body.\<close>

definition unwrap :: "json \<Rightarrow> jsval" where
  "unwrap responseData =
     (if truthy responseData \<and> typeof responseData = ''object'' then
        if has_prop ''user'' responseData \<and> truthy_val (get_prop responseData ''user'')
        then get_prop responseData ''user''
        else if has_prop ''docs'' responseData \<and> isArray (get_prop responseData ''docs'')
                \<and> length (elements (get_prop responseData ''docs'')) > 0
        then first_element (elements (get_prop responseData ''docs''))
        else if has_prop ''doc'' responseData \<and> truthy_val (get_prop responseData ''doc'')
        then get_prop responseData ''doc''
        else Some responseData
      else Some responseData)"

text \<open>Line 90, negated: the candidate is accepted as a user.\<close>

fun validUser :: "jsval \<Rightarrow> bool" where
  "validUser None = False"
| "validUser (Some u) = (truthy u \<and> typeof u = ''object'' \<and> has_prop ''id'' u)"

text \<open>Lines 99 and 100, read only on an accepted candidate.\<close>

fun userRole :: "jsval \<Rightarrow> jsval" where
  "userRole None = None"
| "userRole (Some u) = get_prop u ''role''"

definition hasAdminAccess :: "jsval \<Rightarrow> bool" where
  "hasAdminAccess user =
     (userRole user = Some (JStr ''owner'') \<or> userRole user = Some (JStr ''admin''))"

definition forbidden :: verdict where
  "forbidden = Respond ''Forbidden: Admin or Owner access required'' 403"

text \<open>Lines 78 to 112: from the parsed body to the verdict.\<close>

definition decide :: "request \<Rightarrow> json \<Rightarrow> verdict" where
  "decide req responseData =
     (let user = unwrap responseData in
      if \<not> validUser user then redirectToLogin req
      else if \<not> hasAdminAccess user then forbidden
      else Next)"

text \<open>Line 66, negated: the answer declares a JSON body.\<close>

definition jsonContentType :: "response \<Rightarrow> bool" where
  "jsonContentType r =
     (truthy_str (resp_headers r ''content-type'') \<and>
      includes_str (str_of (resp_headers r ''content-type'')) ''application/json'')"

text \<open>
  Lines 36 to 112, the body of the \<^verbatim>\<open>try\<close>: its result, \<open>Throws\<close> when \<^verbatim>\<open>fetch\<close> or
  \<^verbatim>\<open>json()\<close> throws, and the events up to there. \<open>fetch\<close> is the identity endpoint as
  the middleware meets it.
\<close>

definition tryBody :: "(fetch_call \<Rightarrow> response outcome) \<Rightarrow> request \<Rightarrow> verdict outcome \<times> event list" where
  "tryBody fetch req =
     (let call = identityCall req in
      case fetch call of
        Throws \<Rightarrow> (Throws, [Fetch call])
      | Returns authResponse \<Rightarrow>
          if \<not> ok authResponse \<or> status authResponse = 401 \<or> status authResponse = 403
          then (Returns (redirectToLogin req), [Fetch call])
          else
            let contentType = resp_headers authResponse ''content-type'' in
            if \<not> truthy_str contentType \<or> \<not> includes_str (str_of contentType) ''application/json''
            then (Returns (redirectToLogin req), [Fetch call])
            else
              case json_body authResponse of
                Throws \<Rightarrow> (Throws, [Fetch call, ReadJson])
              | Returns responseData \<Rightarrow> (Returns (decide req responseData), [Fetch call, ReadJson]))"

text \<open>Lines 113 to 119: the \<^verbatim>\<open>catch\<close>.\<close>

definition catch :: "request \<Rightarrow> verdict outcome \<times> event list \<Rightarrow> verdict outcome \<times> event list" where
  "catch req r =
     (case fst r of
        Throws \<Rightarrow> (Returns (redirectToLogin req), snd r)
      | Returns v \<Rightarrow> (Returns v, snd r))"

text \<open>
  Lines 4 to 124. The result is an \<open>outcome\<close>: \<open>Throws\<close> would be an exception leaving
  the middleware.
\<close>

definition middleware :: "(fetch_call \<Rightarrow> response outcome) \<Rightarrow> request \<Rightarrow> verdict outcome \<times> event list" where
  "middleware fetch req =
     (let pathname = pathname (nextUrl req) in
      if isBypassed pathname then (Returns Next, [])
      else if \<not> isFumadocsRoute pathname then (Returns Next, [])
      else if isFumadocsRoute pathname then catch req (tryBody fetch req)
      else (Returns Next, []))"

text \<open>An endpoint that meets every call with the same outcome.\<close>

definition always :: "response outcome \<Rightarrow> fetch_call \<Rightarrow> response outcome" where
  "always r call = r"

text \<open>An endpoint that meets the call \<open>c\<close> with \<open>r\<close> and throws on every other call.\<close>

definition only_for :: "fetch_call \<Rightarrow> response outcome \<Rightarrow> fetch_call \<Rightarrow> response outcome" where
  "only_for c r call = (if call = c then r else Throws)"

text \<open>The outbound calls among the events, in order.\<close>

fun calls :: "event list \<Rightarrow> fetch_call list" where
  "calls [] = []"
| "calls (Fetch c # es) = c # calls es"
| "calls (ReadJson # es) = calls es"

subsection \<open>The unwrapping as the specification words it\<close>

text \<open>
  The precedence user, docs, doc, bare value, one rule after the other: a rule gives its
  candidate, or \<open>None\<close> when it does not apply, and the first rule that applies wins.
\<close>

definition rule_user :: "(string \<times> json) list \<Rightarrow> json option" where
  "rule_user kvs = (case map_of kvs ''user'' of Some u \<Rightarrow> if truthy u then Some u else None | None \<Rightarrow> None)"

definition rule_docs :: "(string \<times> json) list \<Rightarrow> json option" where
  "rule_docs kvs = (case map_of kvs ''docs'' of Some (JArr (x # xs)) \<Rightarrow> Some x | _ \<Rightarrow> None)"

definition rule_doc :: "(string \<times> json) list \<Rightarrow> json option" where
  "rule_doc kvs = (case map_of kvs ''doc'' of Some u \<Rightarrow> if truthy u then Some u else None | None \<Rightarrow> None)"

fun first_rule :: "json option list \<Rightarrow> json \<Rightarrow> json" where
  "first_rule [] bare = bare"
| "first_rule (None # rules) bare = first_rule rules bare"
| "first_rule (Some c # rules) bare = c"

definition candidate_by_precedence :: "json \<Rightarrow> json" where
  "candidate_by_precedence v =
     (case v of
        JObj kvs \<Rightarrow> first_rule [rule_user kvs, rule_docs kvs, rule_doc kvs] v
      | _ \<Rightarrow> v)"

subsection \<open>The middleware on mutable objects\<close>

text \<open>
  \<^verbatim>\<open>request.nextUrl\<close> and \<^verbatim>\<open>request.headers\<close> are objects that outlive one evaluation,
  and the source assigns to properties of URL objects and sets headers. Here the objects
  live in a store, and a reference is an index into it: \<^verbatim>\<open>clone()\<close> and \<^verbatim>\<open>new Headers()\<close>
  add an object, an assignment updates the object a reference points to. A reference
  held by the program always points to an object; the theorems assume that of the
  request's two references, and the references made by \<^verbatim>\<open>clone()\<close> and \<^verbatim>\<open>new Headers()\<close>
  point to the object just added.
\<close>

record store =
  url_objs :: "url list"
  header_objs :: "headers list"

record request_ref =
  nextUrl_at :: nat
  headers_at :: nat

text \<open>The request that the references denote in a store.\<close>

definition request_in :: "store \<Rightarrow> request_ref \<Rightarrow> request" where
  "request_in s rq =
     \<lparr>nextUrl = url_objs s ! nextUrl_at rq, req_headers = header_objs s ! headers_at rq\<rparr>"

text \<open>\<^verbatim>\<open>u.clone()\<close>: a new URL object with the components of \<open>u\<close>, and its reference.\<close>

definition url_clone :: "nat \<Rightarrow> store \<Rightarrow> nat \<times> store" where
  "url_clone u s = (length (url_objs s), s\<lparr>url_objs := url_objs s @ [url_objs s ! u]\<rparr>)"

text \<open>\<^verbatim>\<open>u.pathname = p\<close>.\<close>

definition url_set_pathname :: "nat \<Rightarrow> string \<Rightarrow> store \<Rightarrow> store" where
  "url_set_pathname u p s = s\<lparr>url_objs := (url_objs s)[u := (url_objs s ! u)\<lparr>pathname := p\<rparr>]\<rparr>"

text \<open>\<^verbatim>\<open>u.search = ""\<close>.\<close>

definition url_clear_search :: "nat \<Rightarrow> store \<Rightarrow> store" where
  "url_clear_search u s = s\<lparr>url_objs := (url_objs s)[u := (url_objs s ! u)\<lparr>search := []\<rparr>]\<rparr>"

text \<open>\<^verbatim>\<open>u.searchParams.set(k, v)\<close>.\<close>

definition url_searchParams_set :: "nat \<Rightarrow> string \<Rightarrow> string \<Rightarrow> store \<Rightarrow> store" where
  "url_searchParams_set u k v s =
     s\<lparr>url_objs := (url_objs s)[u := (url_objs s ! u)\<lparr>search := searchParams_set (search (url_objs s ! u)) k v\<rparr>]\<rparr>"

text \<open>\<^verbatim>\<open>new Headers()\<close>.\<close>

definition headers_new :: "store \<Rightarrow> nat \<times> store" where
  "headers_new s = (length (header_objs s), s\<lparr>header_objs := header_objs s @ [Map.empty]\<rparr>)"

text \<open>\<^verbatim>\<open>hs.get(k)\<close> and \<^verbatim>\<open>hs.set(k, v)\<close>.\<close>

definition headers_get :: "nat \<Rightarrow> string \<Rightarrow> store \<Rightarrow> string option" where
  "headers_get hs k s = (header_objs s ! hs) k"

definition headers_set :: "nat \<Rightarrow> string \<Rightarrow> string \<Rightarrow> store \<Rightarrow> store" where
  "headers_set hs k v s = s\<lparr>header_objs := (header_objs s)[hs := (header_objs s ! hs)(k \<mapsto> v)]\<rparr>"

text \<open>
  Lines 58 to 61 (and 68 to 71, 91 to 94, 115 to 118): the clone, the two assignments,
  and the redirect to the URL as it then is.
\<close>

definition redirectToLogin_obj :: "request_ref \<Rightarrow> string \<Rightarrow> store \<Rightarrow> verdict \<times> store" where
  "redirectToLogin_obj rq path s =
     (let (loginUrl, s) = url_clone (nextUrl_at rq) s;
          s = url_set_pathname loginUrl ''/admin/login'' s;
          s = url_searchParams_set loginUrl ''redirect'' path s
      in (Redirect (url_objs s ! loginUrl), s))"

text \<open>Lines 78 to 112.\<close>

definition decide_obj :: "request_ref \<Rightarrow> string \<Rightarrow> json \<Rightarrow> store \<Rightarrow> verdict \<times> store" where
  "decide_obj rq path responseData s =
     (let user = unwrap responseData in
      if \<not> validUser user then redirectToLogin_obj rq path s
      else if \<not> hasAdminAccess user then (forbidden, s)
      else (Next, s))"

text \<open>Lines 37 to 43: the new headers object, filled from the request's headers.\<close>

definition outboundHeaders_obj :: "request_ref \<Rightarrow> store \<Rightarrow> nat \<times> store" where
  "outboundHeaders_obj rq s =
     (let (headers, s) = headers_new s;
          cookieHeader = headers_get (headers_at rq) ''cookie'' s;
          s = (if truthy_str cookieHeader then headers_set headers ''cookie'' (str_of cookieHeader) s else s);
          s = headers_set headers ''user-agent'' (or_else (headers_get (headers_at rq) ''user-agent'' s) []) s
      in (headers, s))"

text \<open>Lines 46 to 48: the clone of the request's URL, with the path and the query assigned.\<close>

definition identityUrl_obj :: "request_ref \<Rightarrow> store \<Rightarrow> nat \<times> store" where
  "identityUrl_obj rq s =
     (let (u, s) = url_clone (nextUrl_at rq) s;
          s = url_set_pathname u ''/api/users/me'' s;
          s = url_clear_search u s
      in (u, s))"

text \<open>
  Lines 37 to 54: the call, made with the URL and the headers as the two new objects
  are at line 51.
\<close>

definition identityCall_obj :: "request_ref \<Rightarrow> store \<Rightarrow> fetch_call \<times> store" where
  "identityCall_obj rq s =
     (let (headers, s) = outboundHeaders_obj rq s;
          (u, s) = identityUrl_obj rq s
      in (\<lparr>fc_url = url_objs s ! u, fc_method = ''GET'',
           fc_headers = header_objs s ! headers, fc_body = None\<rparr>, s))"

text \<open>Lines 36 to 112, the body of the \<^verbatim>\<open>try\<close>.\<close>

definition tryBody_obj ::
  "(fetch_call \<Rightarrow> response outcome) \<Rightarrow> request_ref \<Rightarrow> string \<Rightarrow> store
     \<Rightarrow> (verdict outcome \<times> event list) \<times> store" where
  "tryBody_obj fetch rq path s =
     (let (call, s) = identityCall_obj rq s
      in case fetch call of
           Throws \<Rightarrow> ((Throws, [Fetch call]), s)
         | Returns authResponse \<Rightarrow>
             if \<not> ok authResponse \<or> status authResponse = 401 \<or> status authResponse = 403
             then (let (v, s) = redirectToLogin_obj rq path s in ((Returns v, [Fetch call]), s))
             else
               let contentType = resp_headers authResponse ''content-type'' in
               if \<not> truthy_str contentType \<or> \<not> includes_str (str_of contentType) ''application/json''
               then (let (v, s) = redirectToLogin_obj rq path s in ((Returns v, [Fetch call]), s))
               else
                 case json_body authResponse of
                   Throws \<Rightarrow> ((Throws, [Fetch call, ReadJson]), s)
                 | Returns responseData \<Rightarrow>
                     (let (v, s) = decide_obj rq path responseData s
                      in ((Returns v, [Fetch call, ReadJson]), s)))"

text \<open>Lines 113 to 119: the \<^verbatim>\<open>catch\<close>, run in the store that the \<^verbatim>\<open>try\<close> left.\<close>

definition catch_obj ::
  "request_ref \<Rightarrow> string \<Rightarrow> (verdict outcome \<times> event list) \<times> store
     \<Rightarrow> (verdict outcome \<times> event list) \<times> store" where
  "catch_obj rq path r =
     (case fst (fst r) of
        Throws \<Rightarrow> (let (v, s) = redirectToLogin_obj rq path (snd r) in ((Returns v, snd (fst r)), s))
      | Returns v \<Rightarrow> r)"

text \<open>Lines 4 to 124: the result, and the store that the evaluation leaves.\<close>

definition middleware_obj ::
  "(fetch_call \<Rightarrow> response outcome) \<Rightarrow> request_ref \<Rightarrow> store
     \<Rightarrow> (verdict outcome \<times> event list) \<times> store" where
  "middleware_obj fetch rq s =
     (let path = pathname (url_objs s ! nextUrl_at rq) in
      if isBypassed path then ((Returns Next, []), s)
      else if \<not> isFumadocsRoute path then ((Returns Next, []), s)
      else if isFumadocsRoute path then catch_obj rq path (tryBody_obj fetch rq path s)
      else ((Returns Next, []), s))"

text \<open>Every object of the store \<open>s\<close> is in the store \<open>s'\<close>, at its place and as it was.\<close>

definition kept :: "store \<Rightarrow> store \<Rightarrow> bool" where
  "kept s s' \<longleftrightarrow>
     take (length (url_objs s)) (url_objs s') = url_objs s \<and>
     take (length (header_objs s)) (header_objs s') = header_objs s"

section \<open>Properties\<close>

subsection \<open>Facts about the string and URL operations\<close>

lemma startsWith_iff: "startsWith s p \<longleftrightarrow> (\<exists>r. s = p @ r)"
  by (induction s p rule: startsWith.induct) auto

lemma includes_str_iff: "includes_str s t \<longleftrightarrow> (\<exists>a b. s = a @ t @ b)"
proof (induction s)
  case Nil
  then show ?case by simp
next
  case (Cons x xs)
  show ?case
  proof
    assume "includes_str (x # xs) t"
    then consider "startsWith (x # xs) t" | "includes_str xs t" by auto
    then show "\<exists>a b. x # xs = a @ t @ b"
    proof cases
      case 1
      then obtain r where "x # xs = t @ r" by (auto simp: startsWith_iff)
      then have "x # xs = [] @ t @ r" by simp
      then show ?thesis by blast
    next
      case 2
      then obtain a b where "xs = a @ t @ b" using Cons.IH by blast
      then have "x # xs = (x # a) @ t @ b" by simp
      then show ?thesis by blast
    qed
  next
    assume "\<exists>a b. x # xs = a @ t @ b"
    then obtain a b where ab: "x # xs = a @ t @ b" by blast
    show "includes_str (x # xs) t"
    proof (cases a)
      case Nil
      with ab have "startsWith (x # xs) t" by (auto simp: startsWith_iff)
      then show ?thesis by simp
    next
      case (Cons y ys)
      with ab have "xs = ys @ t @ b" by simp
      then have "includes_str xs t" using Cons.IH by blast
      then show ?thesis by simp
    qed
  qed
qed

lemma searchParams_get_set: "searchParams_get (searchParams_set ps k v) k = Some v"
  by (induction ps) (auto simp: searchParams_get_def)

lemma loginUrl_fields:
  "pathname (loginUrl req) = ''/admin/login''"
  "searchParams_get (search (loginUrl req)) ''redirect'' = Some (pathname (nextUrl req))"
  "protocol (loginUrl req) = protocol (nextUrl req)"
  "host (loginUrl req) = host (nextUrl req)"
  "port (loginUrl req) = port (nextUrl req)"
  by (simp_all add: loginUrl_def Let_def searchParams_get_set)

subsection \<open>Facts about the classification of paths\<close>

lemma isBypassed_iff:
  "isBypassed p \<longleftrightarrow>
     (\<exists>pre \<in> set [''/admin'', ''/api'', ''/_next'', ''/favicon.ico'', ''/demo.mp4'']. \<exists>r. p = pre @ r)"
  by (simp add: isBypassed_def startsWith_iff)

lemma isFumadocsRoute_iff:
  "isFumadocsRoute p \<longleftrightarrow>
     (p = ''/'' \<or>
      (\<exists>pre \<in> set [''/docs'', ''/llms.txt'', ''/llms.mdx'', ''/llms-full.txt'', ''/docs-og'']. \<exists>r. p = pre @ r))"
  by (auto simp: isFumadocsRoute_def startsWith_iff)

lemma guarded_not_bypassed: "isFumadocsRoute p \<Longrightarrow> \<not> isBypassed p"
  by (auto simp: isFumadocsRoute_def isBypassed_def startsWith_iff)

subsection \<open>Facts about the candidate user\<close>

lemma validUser_iff:
  "validUser v \<longleftrightarrow> (\<exists>kvs. v = Some (JObj kvs) \<and> map_of kvs ''id'' \<noteq> None)"
proof (cases v)
  case None
  then show ?thesis by simp
next
  case (Some u)
  then show ?thesis by (cases u) (simp_all add: has_prop_def)
qed

lemma hasAdminAccess_obj:
  "hasAdminAccess (Some (JObj kvs)) \<longleftrightarrow>
     (map_of kvs ''role'' = Some (JStr ''owner'') \<or> map_of kvs ''role'' = Some (JStr ''admin''))"
  by (simp add: hasAdminAccess_def)

lemma verdicts_distinct:
  "redirectToLogin req \<noteq> Next" "redirectToLogin req \<noteq> forbidden" "forbidden \<noteq> Next"
  by (simp_all add: redirectToLogin_def forbidden_def)

subsection \<open>The middleware on a guarded path, case by case\<close>

lemma middleware_guarded:
  "isFumadocsRoute (pathname (nextUrl req)) \<Longrightarrow>
   middleware fetch req = catch req (tryBody fetch req)"
  by (simp add: middleware_def guarded_not_bypassed)

lemma guarded_fetch_throws:
  assumes "isFumadocsRoute (pathname (nextUrl req))"
    and "fetch (identityCall req) = Throws"
  shows "middleware fetch req = (Returns (redirectToLogin req), [Fetch (identityCall req)])"
  using assms by (simp add: middleware_guarded catch_def tryBody_def)

lemma guarded_bad_status:
  assumes "isFumadocsRoute (pathname (nextUrl req))"
    and "fetch (identityCall req) = Returns r"
    and "\<not> ok r \<or> status r = 401 \<or> status r = 403"
  shows "middleware fetch req = (Returns (redirectToLogin req), [Fetch (identityCall req)])"
  using assms by (auto simp: middleware_guarded catch_def tryBody_def)

lemma ok_not_401_403: "ok r \<Longrightarrow> status r \<noteq> 401 \<and> status r \<noteq> 403"
  by (simp add: ok_def)

lemma jsonContentType_iff:
  "jsonContentType r \<longleftrightarrow> (\<exists>a b. resp_headers r ''content-type'' = Some (a @ ''application/json'' @ b))"
proof (cases "resp_headers r ''content-type''")
  case None
  then show ?thesis by (simp add: jsonContentType_def)
next
  case (Some ct)
  then show ?thesis by (auto simp: jsonContentType_def includes_str_iff)
qed

lemma guarded_bad_content_type:
  assumes "isFumadocsRoute (pathname (nextUrl req))"
    and "fetch (identityCall req) = Returns r"
    and "ok r" and "\<not> jsonContentType r"
  shows "middleware fetch req = (Returns (redirectToLogin req), [Fetch (identityCall req)])"
  using assms ok_not_401_403 [of r]
  by (auto simp: middleware_guarded catch_def tryBody_def jsonContentType_def)

lemma guarded_json_throws:
  assumes "isFumadocsRoute (pathname (nextUrl req))"
    and "fetch (identityCall req) = Returns r"
    and "ok r" and "jsonContentType r" and "json_body r = Throws"
  shows "middleware fetch req = (Returns (redirectToLogin req), [Fetch (identityCall req), ReadJson])"
  using assms ok_not_401_403 [of r]
  by (auto simp: middleware_guarded catch_def tryBody_def jsonContentType_def)

lemma guarded_json_parsed:
  assumes "isFumadocsRoute (pathname (nextUrl req))"
    and "fetch (identityCall req) = Returns r"
    and "ok r" and "jsonContentType r" and "json_body r = Returns d"
  shows "middleware fetch req = (Returns (decide req d), [Fetch (identityCall req), ReadJson])"
  using assms ok_not_401_403 [of r]
  by (auto simp: middleware_guarded catch_def tryBody_def jsonContentType_def)

lemma decide_cases:
  "decide req d =
     (if \<not> validUser (unwrap d) then redirectToLogin req
      else if hasAdminAccess (unwrap d) then Next else forbidden)"
  by (simp add: decide_def Let_def)

subsection \<open>Failure and success of the verification\<close>

lemma guarded_failure:
  assumes g: "isFumadocsRoute (pathname (nextUrl req))"
    and F: "fetch (identityCall req) = Throws \<or>
       (\<exists>r. fetch (identityCall req) = Returns r \<and>
          (\<not> ok r \<or> status r = 401 \<or> status r = 403 \<or> \<not> jsonContentType r \<or>
           json_body r = Throws \<or>
           (\<exists>d. json_body r = Returns d \<and> \<not> validUser (unwrap d))))"
  shows "fst (middleware fetch req) = Returns (redirectToLogin req)"
proof (cases "fetch (identityCall req)")
  case Throws
  with g show ?thesis by (simp add: guarded_fetch_throws)
next
  case (Returns r)
  note fr = this
  show ?thesis
  proof (cases "\<not> ok r \<or> status r = 401 \<or> status r = 403")
    case True
    with g fr show ?thesis by (simp add: guarded_bad_status)
  next
    case False
    then have okr: "ok r" by simp
    show ?thesis
    proof (cases "jsonContentType r")
      case False
      with g fr okr show ?thesis by (simp add: guarded_bad_content_type)
    next
      case True
      note ct = this
      show ?thesis
      proof (cases "json_body r")
        case Throws
        with g fr okr ct show ?thesis by (simp add: guarded_json_throws)
      next
        case (Returns d)
        with F fr okr ct \<open>\<not> (\<not> ok r \<or> status r = 401 \<or> status r = 403)\<close>
        have "\<not> validUser (unwrap d)" by auto
        with g fr okr ct Returns show ?thesis
          by (simp add: guarded_json_parsed decide_cases)
      qed
    qed
  qed
qed

lemma guarded_authenticated:
  assumes "isFumadocsRoute (pathname (nextUrl req))"
    and "fetch (identityCall req) = Returns r" and "ok r" and "jsonContentType r"
    and "json_body r = Returns d" and "validUser (unwrap d)"
  shows "fst (middleware fetch req) = Returns (if hasAdminAccess (unwrap d) then Next else forbidden)"
  using assms by (simp add: guarded_json_parsed decide_cases)

lemma failure_or_authenticated:
  "(fetch (identityCall req) = Throws \<or>
       (\<exists>r. fetch (identityCall req) = Returns r \<and>
          (\<not> ok r \<or> status r = 401 \<or> status r = 403 \<or> \<not> jsonContentType r \<or>
           json_body r = Throws \<or>
           (\<exists>d. json_body r = Returns d \<and> \<not> validUser (unwrap d)))))
   \<or> (\<exists>r d. fetch (identityCall req) = Returns r \<and> ok r \<and> jsonContentType r \<and>
          json_body r = Returns d \<and> validUser (unwrap d))"
proof (cases "fetch (identityCall req)")
  case Throws
  then show ?thesis by simp
next
  case (Returns r)
  then show ?thesis by (cases "json_body r") auto
qed

lemma not_ok_iff: "\<not> ok r \<longleftrightarrow> status r < 200 \<or> 299 < status r"
  by (auto simp: ok_def)

lemma not_validUser_iff:
  "\<not> validUser v \<longleftrightarrow> (\<forall>kvs. v = Some (JObj kvs) \<longrightarrow> map_of kvs ''id'' = None)"
  by (auto simp: validUser_iff)

lemma not_jsonContentType_iff:
  "\<not> jsonContentType r \<longleftrightarrow> (\<forall>a b. resp_headers r ''content-type'' \<noteq> Some (a @ ''application/json'' @ b))"
  by (simp add: jsonContentType_iff)

lemma guarded_calls:
  assumes g: "isFumadocsRoute (pathname (nextUrl req))"
  shows "calls (snd (middleware fetch req)) = [identityCall req]"
proof (cases "fetch (identityCall req)")
  case Throws
  with g show ?thesis by (simp add: guarded_fetch_throws)
next
  case (Returns r)
  note fr = this
  show ?thesis
  proof (cases "\<not> ok r \<or> status r = 401 \<or> status r = 403")
    case True
    with g fr show ?thesis by (simp add: guarded_bad_status)
  next
    case False
    then have okr: "ok r" by simp
    show ?thesis
    proof (cases "jsonContentType r")
      case False
      with g fr okr show ?thesis by (simp add: guarded_bad_content_type)
    next
      case True
      with g fr okr show ?thesis
        by (cases "json_body r") (simp_all add: guarded_json_throws guarded_json_parsed)
    qed
  qed
qed

subsection \<open>The middleware on mutable objects: what an evaluation leaves behind\<close>

lemma kept_refl: "kept s s"
  by (simp add: kept_def)

lemma kept_request:
  assumes "kept s s'" and "nextUrl_at rq < length (url_objs s)"
    and "headers_at rq < length (header_objs s)"
  shows "request_in s' rq = request_in s rq"
proof -
  have "url_objs s' ! nextUrl_at rq = take (length (url_objs s)) (url_objs s') ! nextUrl_at rq"
    using assms(2) by simp
  moreover have "header_objs s' ! headers_at rq
      = take (length (header_objs s)) (header_objs s') ! headers_at rq"
    using assms(3) by simp
  ultimately show ?thesis
    using assms(1) by (simp add: request_in_def kept_def)
qed

lemma redirectToLogin_obj_eq:
  "redirectToLogin_obj rq (pathname (nextUrl (request_in s rq))) s
     = (redirectToLogin (request_in s rq),
        s\<lparr>url_objs := url_objs s @ [loginUrl (request_in s rq)]\<rparr>)"
  by (simp add: redirectToLogin_obj_def redirectToLogin_def loginUrl_def url_clone_def
      url_set_pathname_def url_searchParams_set_def request_in_def Let_def)

lemma redirectToLogin_obj_later:
  assumes "kept s s'" and "nextUrl_at rq < length (url_objs s)"
    and "headers_at rq < length (header_objs s)"
  shows "fst (redirectToLogin_obj rq (pathname (nextUrl (request_in s rq))) s')
           = redirectToLogin (request_in s rq)"
    and "kept s (snd (redirectToLogin_obj rq (pathname (nextUrl (request_in s rq))) s'))"
proof -
  have r: "request_in s' rq = request_in s rq"
    using assms by (rule kept_request)
  from redirectToLogin_obj_eq [of rq s'] r
  have e: "redirectToLogin_obj rq (pathname (nextUrl (request_in s rq))) s'
     = (redirectToLogin (request_in s rq),
        s'\<lparr>url_objs := url_objs s' @ [loginUrl (request_in s rq)]\<rparr>)"
    by simp
  show "fst (redirectToLogin_obj rq (pathname (nextUrl (request_in s rq))) s')
           = redirectToLogin (request_in s rq)"
    by (simp add: e)
  have "length (take (length (url_objs s)) (url_objs s')) = length (url_objs s)"
    using assms(1) by (simp only: kept_def)
  then have "length (url_objs s) \<le> length (url_objs s')"
    by simp
  then show "kept s (snd (redirectToLogin_obj rq (pathname (nextUrl (request_in s rq))) s'))"
    using assms(1) by (simp add: e kept_def)
qed

lemma outboundHeaders_obj_eq:
  assumes "headers_at rq < length (header_objs s)"
  shows "outboundHeaders_obj rq s =
     (length (header_objs s),
      s\<lparr>header_objs := header_objs s @ [outboundHeaders (request_in s rq)]\<rparr>)"
proof (cases "truthy_str ((header_objs s ! headers_at rq) ''cookie'')")
  case True
  then obtain c where "(header_objs s ! headers_at rq) ''cookie'' = Some c"
    by (cases "(header_objs s ! headers_at rq) ''cookie''") simp_all
  with True assms show ?thesis
    by (simp add: outboundHeaders_obj_def outboundHeaders_def headers_new_def headers_get_def
        headers_set_def request_in_def nth_append)
next
  case False
  with assms show ?thesis
    by (simp add: outboundHeaders_obj_def outboundHeaders_def headers_new_def headers_get_def
        headers_set_def request_in_def nth_append)
qed

lemma identityUrl_obj_eq:
  "identityUrl_obj rq s =
     (length (url_objs s),
      s\<lparr>url_objs := url_objs s @
         [(url_objs s ! nextUrl_at rq)\<lparr>pathname := ''/api/users/me'', search := []\<rparr>]\<rparr>)"
  by (simp add: identityUrl_obj_def url_clone_def url_set_pathname_def url_clear_search_def)

lemma identityCall_obj_eq:
  assumes "headers_at rq < length (header_objs s)"
  shows "identityCall_obj rq s =
     (identityCall (request_in s rq),
      s\<lparr>url_objs := url_objs s @ [fc_url (identityCall (request_in s rq))],
        header_objs := header_objs s @ [fc_headers (identityCall (request_in s rq))]\<rparr>)"
  by (simp add: identityCall_obj_def outboundHeaders_obj_eq [OF assms] identityUrl_obj_eq
      identityCall_def request_in_def)

lemma kept_after_call:
  "kept s (s\<lparr>url_objs := url_objs s @ us, header_objs := header_objs s @ hs\<rparr>)"
  by (simp add: kept_def)

lemma kept_length:
  assumes "kept s s'"
  shows "length (url_objs s) \<le> length (url_objs s')"
    and "length (header_objs s) \<le> length (header_objs s')"
proof -
  have "length (take (length (url_objs s)) (url_objs s')) = length (url_objs s)"
    and "length (take (length (header_objs s)) (header_objs s')) = length (header_objs s)"
    using assms by (simp_all only: kept_def)
  then show "length (url_objs s) \<le> length (url_objs s')"
    and "length (header_objs s) \<le> length (header_objs s')"
    by simp_all
qed

lemma decide_obj_later:
  assumes "kept s s'" and "nextUrl_at rq < length (url_objs s)"
    and "headers_at rq < length (header_objs s)"
  shows "fst (decide_obj rq (pathname (nextUrl (request_in s rq))) d s') = decide (request_in s rq) d"
    and "kept s (snd (decide_obj rq (pathname (nextUrl (request_in s rq))) d s'))"
  using assms redirectToLogin_obj_later [OF assms]
  by (simp_all add: decide_obj_def decide_def Let_def)

lemma tryBody_obj_refines:
  assumes u: "nextUrl_at rq < length (url_objs s)"
    and h: "headers_at rq < length (header_objs s)"
  shows "fst (tryBody_obj fetch rq (pathname (nextUrl (request_in s rq))) s)
           = tryBody fetch (request_in s rq)"
    and "kept s (snd (tryBody_obj fetch rq (pathname (nextUrl (request_in s rq))) s))"
proof -
  define call where "call = identityCall (request_in s rq)"
  define s1 where "s1 = s\<lparr>url_objs := url_objs s @ [fc_url call],
        header_objs := header_objs s @ [fc_headers call]\<rparr>"
  define p where "p = pathname (nextUrl (request_in s rq))"
  have c: "identityCall_obj rq s = (call, s1)"
    by (simp add: identityCall_obj_eq [OF h] call_def s1_def)
  have k: "kept s s1"
    unfolding s1_def by (rule kept_after_call)
  note r = redirectToLogin_obj_later [OF k u h, folded p_def]
  note d = decide_obj_later [OF k u h, folded p_def]
  show "fst (tryBody_obj fetch rq p s) = tryBody fetch (request_in s rq)"
    by (simp add: tryBody_obj_def tryBody_def c r d call_def [symmetric] split_def Let_def
        split: outcome.splits)
  show "kept s (snd (tryBody_obj fetch rq p s))"
    by (simp add: tryBody_obj_def c r d k split_def Let_def split: outcome.splits)
qed

lemma catch_obj_refines:
  assumes "kept s (snd r)" and "nextUrl_at rq < length (url_objs s)"
    and "headers_at rq < length (header_objs s)"
  shows "fst (catch_obj rq (pathname (nextUrl (request_in s rq))) r) = catch (request_in s rq) (fst r)"
    and "kept s (snd (catch_obj rq (pathname (nextUrl (request_in s rq))) r))"
  using assms(1) redirectToLogin_obj_later [OF assms]
  by (simp_all add: catch_obj_def catch_def split_def prod_eq_iff split: outcome.splits)

lemma middleware_obj_refines:
  assumes u: "nextUrl_at rq < length (url_objs s)"
    and h: "headers_at rq < length (header_objs s)"
  shows "fst (middleware_obj fetch rq s) = middleware fetch (request_in s rq)"
    and "kept s (snd (middleware_obj fetch rq s))"
proof -
  have p: "pathname (url_objs s ! nextUrl_at rq) = pathname (nextUrl (request_in s rq))"
    by (simp add: request_in_def)
  note t = tryBody_obj_refines [OF u h, of fetch]
  note c = catch_obj_refines [OF t(2) u h]
  show "fst (middleware_obj fetch rq s) = middleware fetch (request_in s rq)"
    unfolding middleware_obj_def middleware_def p Let_def
    by (simp add: c(1) t(1))
  show "kept s (snd (middleware_obj fetch rq s))"
    unfolding middleware_obj_def p Let_def
    by (simp add: c(2) kept_refl)
qed

section \<open>The claims\<close>

text \<open>
  C3. A path that starts with one of the five bypass prefixes, and a path that is
  neither bypassed nor guarded (not the root and not starting with one of the five
  guarded prefixes), is passed through, and no outbound call is made: the list of
  events is empty, whatever the headers of the request and whatever the identity
  endpoint would do.
\<close>

theorem bypassed_and_unguarded_pass_through:
  assumes "(\<exists>pre \<in> set [''/admin'', ''/api'', ''/_next'', ''/favicon.ico'', ''/demo.mp4''].
              \<exists>r. pathname (nextUrl req) = pre @ r)
           \<or> (pathname (nextUrl req) \<noteq> ''/'' \<and>
               (\<forall>pre \<in> set [''/docs'', ''/llms.txt'', ''/llms.mdx'', ''/llms-full.txt'', ''/docs-og''].
                  \<forall>r. pathname (nextUrl req) \<noteq> pre @ r))"
  shows "middleware fetch req = (Returns Next, [])"
proof -
  from assms consider "isBypassed (pathname (nextUrl req))"
    | "\<not> isFumadocsRoute (pathname (nextUrl req))"
    unfolding isBypassed_iff isFumadocsRoute_iff by blast
  then show ?thesis
    by cases (simp_all add: middleware_def Let_def)
qed

theorem bypassed_and_unguarded_pass_through_witness:
  "middleware (always Throws)
     \<lparr>nextUrl = \<lparr>protocol = ''https:'', host = ''docs.example.com'', port = '''',
                 pathname = ''/admin/login'', search = [(''redirect'', ''/docs'')]\<rparr>,
      req_headers = map_of []\<rparr> = (Returns Next, [])
   \<and> middleware (always Throws)
     \<lparr>nextUrl = \<lparr>protocol = ''https:'', host = ''docs.example.com'', port = '''',
                 pathname = ''/pricing'', search = []\<rparr>,
      req_headers = map_of [(''cookie'', ''payload-token=abc'')]\<rparr> = (Returns Next, [])"
proof -
  have a: "\<exists>r. ''/admin/login'' = ''/admin'' @ r" by simp
  have b: "''/pricing'' \<noteq> ''/'' \<and>
      (\<forall>pre \<in> set [''/docs'', ''/llms.txt'', ''/llms.mdx'', ''/llms-full.txt'', ''/docs-og''].
         \<forall>r. ''/pricing'' \<noteq> pre @ r)" by simp
  show ?thesis
    using a b
      bypassed_and_unguarded_pass_through [of
        "\<lparr>nextUrl = \<lparr>protocol = ''https:'', host = ''docs.example.com'', port = '''',
                 pathname = ''/admin/login'', search = [(''redirect'', ''/docs'')]\<rparr>,
          req_headers = map_of []\<rparr>" "always Throws"]
      bypassed_and_unguarded_pass_through [of
        "\<lparr>nextUrl = \<lparr>protocol = ''https:'', host = ''docs.example.com'', port = '''',
                 pathname = ''/pricing'', search = []\<rparr>,
          req_headers = map_of [(''cookie'', ''payload-token=abc'')]\<rparr>" "always Throws"]
    by simp
qed

text \<open>
  C1. On a guarded path the verdict is the pass-through exactly when the identity call
  returns, with a status from 200 to 299 and a content type containing
  \<^verbatim>\<open>application/json\<close>, a body that parses and whose unwrapped candidate is an object
  with an \<^verbatim>\<open>id\<close> and a \<^verbatim>\<open>role\<close> that is the string \<^verbatim>\<open>owner\<close> or the string \<^verbatim>\<open>admin\<close>. So
  no failure of the verification gives the pass-through.
\<close>

theorem guarded_allow_iff_admin_or_owner:
  assumes "isFumadocsRoute (pathname (nextUrl req))"
    and "\<not> isBypassed (pathname (nextUrl req))"
  shows "fst (middleware fetch req) = Returns Next \<longleftrightarrow>
     (\<exists>r a b d kvs.
        fetch (identityCall req) = Returns r \<and>
        200 \<le> status r \<and> status r \<le> 299 \<and>
        resp_headers r ''content-type'' = Some (a @ ''application/json'' @ b) \<and>
        json_body r = Returns d \<and>
        unwrap d = Some (JObj kvs) \<and>
        map_of kvs ''id'' \<noteq> None \<and>
        (map_of kvs ''role'' = Some (JStr ''owner'') \<or> map_of kvs ''role'' = Some (JStr ''admin'')))"
    (is "?L \<longleftrightarrow> ?R")
proof
  assume L: ?L
  note g = assms(1)
  show ?R
  proof (cases "fetch (identityCall req)")
    case Throws
    with g L show ?thesis
      by (simp add: guarded_fetch_throws verdicts_distinct)
  next
    case (Returns r)
    have okr: "ok r"
    proof (rule ccontr)
      assume "\<not> ok r"
      with g Returns have "fst (middleware fetch req) = Returns (redirectToLogin req)"
        by (simp add: guarded_bad_status)
      with L show False by (simp add: verdicts_distinct)
    qed
    have ct: "jsonContentType r"
    proof (rule ccontr)
      assume "\<not> jsonContentType r"
      with g Returns okr have "fst (middleware fetch req) = Returns (redirectToLogin req)"
        by (simp add: guarded_bad_content_type)
      with L show False by (simp add: verdicts_distinct)
    qed
    then obtain a b where ab: "resp_headers r ''content-type'' = Some (a @ ''application/json'' @ b)"
      unfolding jsonContentType_iff by blast
    show ?thesis
    proof (cases "json_body r")
      case Throws
      with g L Returns okr ct show ?thesis
        by (simp add: guarded_json_throws verdicts_distinct)
    next
      case (Returns d)
      with g \<open>fetch (identityCall req) = Returns r\<close> okr ct L
      have dec: "decide req d = Next"
        by (simp add: guarded_json_parsed)
      then have v: "validUser (unwrap d)" and h: "hasAdminAccess (unwrap d)"
        by (auto simp: decide_cases verdicts_distinct split: if_splits)
      from v obtain kvs where k: "unwrap d = Some (JObj kvs)" "map_of kvs ''id'' \<noteq> None"
        unfolding validUser_iff by blast
      with h have "map_of kvs ''role'' = Some (JStr ''owner'') \<or> map_of kvs ''role'' = Some (JStr ''admin'')"
        by (simp add: hasAdminAccess_obj)
      with k ab Returns \<open>fetch (identityCall req) = Returns r\<close> okr show ?thesis
        unfolding ok_def by blast
    qed
  qed
next
  assume ?R
  then obtain r a b d kvs where R:
    "fetch (identityCall req) = Returns r" "200 \<le> status r" "status r \<le> 299"
    "resp_headers r ''content-type'' = Some (a @ ''application/json'' @ b)"
    "json_body r = Returns d" "unwrap d = Some (JObj kvs)" "map_of kvs ''id'' \<noteq> None"
    "map_of kvs ''role'' = Some (JStr ''owner'') \<or> map_of kvs ''role'' = Some (JStr ''admin'')"
    by blast
  have okr: "ok r" using R(2,3) by (simp add: ok_def)
  have ct: "jsonContentType r" unfolding jsonContentType_iff using R(4) by blast
  have v: "validUser (unwrap d)" unfolding validUser_iff using R(6,7) by blast
  have h: "hasAdminAccess (unwrap d)" using R(6,8) by (simp add: hasAdminAccess_obj)
  show ?L
    using assms(1) R(1,5) okr ct v h
    by (simp add: guarded_json_parsed decide_cases)
qed

theorem guarded_allow_iff_admin_or_owner_witness:
  "isFumadocsRoute ''/'' \<and> \<not> isBypassed ''/''
   \<and> fst (middleware
        (always (Returns \<lparr>status = 200,
           resp_headers = map_of [(''content-type'', ''application/json; charset=utf-8'')],
           json_body = Returns (JObj [(''user'', JObj [(''id'', JStr ''42''), (''role'', JStr ''admin'')])])\<rparr>))
        \<lparr>nextUrl = \<lparr>protocol = ''https:'', host = ''docs.example.com'', port = '''',
                    pathname = ''/'', search = []\<rparr>,
         req_headers = map_of [(''cookie'', ''payload-token=abc'')]\<rparr>) = Returns Next
   \<and> fst (middleware
        (always (Returns \<lparr>status = 200,
           resp_headers = map_of [(''content-type'', ''application/json; charset=utf-8'')],
           json_body = Returns (JObj [(''user'', JObj [(''role'', JStr ''admin'')])])\<rparr>))
        \<lparr>nextUrl = \<lparr>protocol = ''https:'', host = ''docs.example.com'', port = '''',
                    pathname = ''/'', search = []\<rparr>,
         req_headers = map_of [(''cookie'', ''payload-token=abc'')]\<rparr>) \<noteq> Returns Next"
proof -
  let ?req = "\<lparr>nextUrl = \<lparr>protocol = ''https:'', host = ''docs.example.com'', port = '''',
                    pathname = ''/'', search = []\<rparr>,
         req_headers = map_of [(''cookie'', ''payload-token=abc'')]\<rparr>"
  let ?r1 = "\<lparr>status = 200,
           resp_headers = map_of [(''content-type'', ''application/json; charset=utf-8'')],
           json_body = Returns (JObj [(''user'', JObj [(''id'', JStr ''42''), (''role'', JStr ''admin'')])])\<rparr>"
  let ?r2 = "\<lparr>status = 200,
           resp_headers = map_of [(''content-type'', ''application/json; charset=utf-8'')],
           json_body = Returns (JObj [(''user'', JObj [(''role'', JStr ''admin'')])])\<rparr>"
  have g: "isFumadocsRoute (pathname (nextUrl ?req))" "\<not> isBypassed (pathname (nextUrl ?req))"
    by (simp_all add: isFumadocsRoute_def isBypassed_def)
  have ct: "''application/json; charset=utf-8'' = [] @ ''application/json'' @ ''; charset=utf-8''"
    by simp
  have "fst (middleware (always (Returns ?r1)) ?req) = Returns Next"
    unfolding guarded_allow_iff_admin_or_owner [OF g]
    apply (rule exI [of _ ?r1], rule exI [of _ "[]"], rule exI [of _ "''; charset=utf-8''"])
    apply (rule exI [of _ "JObj [(''user'', JObj [(''id'', JStr ''42''), (''role'', JStr ''admin'')])]"])
    apply (rule exI [of _ "[(''id'', JStr ''42''), (''role'', JStr ''admin'')]"])
    apply (simp add: always_def unwrap_def has_prop_def)
    done
  moreover have "fst (middleware (always (Returns ?r2)) ?req) \<noteq> Returns Next"
    unfolding guarded_allow_iff_admin_or_owner [OF g]
    by (auto simp: always_def unwrap_def has_prop_def)
  ultimately show ?thesis using g by simp
qed

text \<open>
  C2. On a guarded path every failure of the verification gives one and the same
  verdict: \<^verbatim>\<open>fetch\<close> throwing, a status outside 200 to 299 (401 and 403 among them), a
  content type that does not contain \<^verbatim>\<open>application/json\<close> (or none), a body that does
  not parse, and a candidate that is not an object with an \<^verbatim>\<open>id\<close> all give the redirect to
  the login URL, whose path is \<^verbatim>\<open>/admin/login\<close> and whose \<^verbatim>\<open>redirect\<close> parameter is the
  requested path. The 403 is the verdict exactly when the verification reached a user
  whose role is neither \<^verbatim>\<open>owner\<close> nor \<^verbatim>\<open>admin\<close>.
\<close>

theorem guarded_failures_redirect_to_login:
  assumes "isFumadocsRoute (pathname (nextUrl req))"
    and "\<not> isBypassed (pathname (nextUrl req))"
  shows "((fetch (identityCall req) = Throws \<or>
           (\<exists>r. fetch (identityCall req) = Returns r \<and>
              (status r < 200 \<or> 299 < status r \<or> status r = 401 \<or> status r = 403 \<or>
               (\<forall>a b. resp_headers r ''content-type'' \<noteq> Some (a @ ''application/json'' @ b)) \<or>
               json_body r = Throws \<or>
               (\<exists>d. json_body r = Returns d \<and>
                  (\<forall>kvs. unwrap d = Some (JObj kvs) \<longrightarrow> map_of kvs ''id'' = None)))))
          \<longrightarrow> fst (middleware fetch req) = Returns (Redirect (loginUrl req)))
     \<and> pathname (loginUrl req) = ''/admin/login''
     \<and> searchParams_get (search (loginUrl req)) ''redirect'' = Some (pathname (nextUrl req))
     \<and> (fst (middleware fetch req) = Returns (Respond ''Forbidden: Admin or Owner access required'' 403)
          \<longleftrightarrow>
        (\<exists>r a b d kvs.
           fetch (identityCall req) = Returns r \<and>
           200 \<le> status r \<and> status r \<le> 299 \<and>
           resp_headers r ''content-type'' = Some (a @ ''application/json'' @ b) \<and>
           json_body r = Returns d \<and>
           unwrap d = Some (JObj kvs) \<and>
           map_of kvs ''id'' \<noteq> None \<and>
           map_of kvs ''role'' \<noteq> Some (JStr ''owner'') \<and>
           map_of kvs ''role'' \<noteq> Some (JStr ''admin'')))"
    (is "(?F \<longrightarrow> ?redirect) \<and> ?path \<and> ?param \<and> (?forb \<longleftrightarrow> ?R)")
proof -
  note g = assms(1)
  let ?F' = "fetch (identityCall req) = Throws \<or>
       (\<exists>r. fetch (identityCall req) = Returns r \<and>
          (\<not> ok r \<or> status r = 401 \<or> status r = 403 \<or> \<not> jsonContentType r \<or>
           json_body r = Throws \<or>
           (\<exists>d. json_body r = Returns d \<and> \<not> validUser (unwrap d))))"
  have FF: "?F \<longleftrightarrow> ?F'"
    unfolding not_ok_iff not_validUser_iff not_jsonContentType_iff by (simp add: disj_assoc)
  have 1: "?F \<longrightarrow> ?redirect"
    using guarded_failure [where fetch = fetch, OF g] FF by (simp add: redirectToLogin_def)
  have 2: "?forb" if "?R"
  proof -
    from that obtain r a b d kvs where R:
      "fetch (identityCall req) = Returns r" "200 \<le> status r" "status r \<le> 299"
      "resp_headers r ''content-type'' = Some (a @ ''application/json'' @ b)"
      "json_body r = Returns d" "unwrap d = Some (JObj kvs)" "map_of kvs ''id'' \<noteq> None"
      "map_of kvs ''role'' \<noteq> Some (JStr ''owner'')" "map_of kvs ''role'' \<noteq> Some (JStr ''admin'')"
      by blast
    have okr: "ok r" using R(2,3) by (simp add: ok_def)
    have ct: "jsonContentType r" unfolding jsonContentType_iff using R(4) by blast
    have v: "validUser (unwrap d)" unfolding validUser_iff using R(6,7) by blast
    have h: "\<not> hasAdminAccess (unwrap d)" using R(6,8,9) by (simp add: hasAdminAccess_obj)
    show ?thesis
      using guarded_authenticated [where fetch = fetch, OF g R(1) okr ct R(5) v] h by (simp add: forbidden_def)
  qed
  have 3: "?R" if forb: "?forb"
  proof -
    from failure_or_authenticated [of fetch req] show ?thesis
    proof
      assume ?F'
      from guarded_failure [where fetch = fetch, OF g this] forb show ?thesis
        by (simp add: redirectToLogin_def)
    next
      assume "\<exists>r d. fetch (identityCall req) = Returns r \<and> ok r \<and> jsonContentType r \<and>
          json_body r = Returns d \<and> validUser (unwrap d)"
      then obtain r d where A: "fetch (identityCall req) = Returns r" "ok r" "jsonContentType r"
        "json_body r = Returns d" "validUser (unwrap d)" by blast
      from A(3) obtain a b where ab: "resp_headers r ''content-type'' = Some (a @ ''application/json'' @ b)"
        unfolding jsonContentType_iff by blast
      from A(5) obtain kvs where k: "unwrap d = Some (JObj kvs)" "map_of kvs ''id'' \<noteq> None"
        unfolding validUser_iff by blast
      have "\<not> hasAdminAccess (unwrap d)"
      proof
        assume "hasAdminAccess (unwrap d)"
        with guarded_authenticated [where fetch = fetch, OF g A]
        have "fst (middleware fetch req) = Returns Next" by simp
        with forb show False by simp
      qed
      with k have "map_of kvs ''role'' \<noteq> Some (JStr ''owner'')" "map_of kvs ''role'' \<noteq> Some (JStr ''admin'')"
        by (simp_all add: hasAdminAccess_obj)
      with A(1,2,4) ab k show ?thesis unfolding ok_def by blast
    qed
  qed
  have 4: "?forb \<longleftrightarrow> ?R"
  proof
    assume ?forb then show ?R by (rule 3)
  next
    assume ?R then show ?forb by (rule 2)
  qed
  show ?thesis
    by (intro conjI 1 4 loginUrl_fields(1) loginUrl_fields(2))
qed

theorem guarded_failures_redirect_to_login_witness:
  "fst (middleware (always Throws)
        \<lparr>nextUrl = \<lparr>protocol = ''https:'', host = ''docs.example.com'', port = '''',
                    pathname = ''/llms-full.txt'', search = []\<rparr>,
         req_headers = map_of []\<rparr>)
     = Returns (Redirect \<lparr>protocol = ''https:'', host = ''docs.example.com'', port = '''',
                    pathname = ''/admin/login'', search = [(''redirect'', ''/llms-full.txt'')]\<rparr>)
   \<and> fst (middleware (always Throws)
        \<lparr>nextUrl = \<lparr>protocol = ''https:'', host = ''docs.example.com'', port = '''',
                    pathname = ''/llms-full.txt'', search = []\<rparr>,
         req_headers = map_of []\<rparr>)
     \<noteq> Returns (Respond ''Forbidden: Admin or Owner access required'' 403)"
proof -
  let ?req = "\<lparr>nextUrl = \<lparr>protocol = ''https:'', host = ''docs.example.com'', port = '''',
                    pathname = ''/llms-full.txt'', search = []\<rparr>,
         req_headers = map_of []\<rparr>"
  have g: "isFumadocsRoute (pathname (nextUrl ?req))" "\<not> isBypassed (pathname (nextUrl ?req))"
    by (simp_all add: isFumadocsRoute_def isBypassed_def)
  from guarded_failures_redirect_to_login [OF g, of "always Throws"]
  show ?thesis
    by (simp add: always_def loginUrl_def)
qed

text \<open>
  C4. On a guarded path, once the verification has reached a user (the call returned with
  a status from 200 to 299 and a JSON content type, the body parsed, the unwrapped
  candidate is an object with an \<^verbatim>\<open>id\<close>), the role alone decides, compared exactly: the
  string \<^verbatim>\<open>owner\<close> or the string \<^verbatim>\<open>admin\<close> gives the pass-through, and every other role, a
  missing one included, gives the 403 with the body
  \<^verbatim>\<open>Forbidden: Admin or Owner access required\<close>.
\<close>

theorem authenticated_role_decides:
  assumes "isFumadocsRoute (pathname (nextUrl req))"
    and "\<not> isBypassed (pathname (nextUrl req))"
    and "fetch (identityCall req) = Returns r"
    and "200 \<le> status r" and "status r \<le> 299"
    and "resp_headers r ''content-type'' = Some (a @ ''application/json'' @ b)"
    and "json_body r = Returns d"
    and "unwrap d = Some (JObj kvs)"
    and "map_of kvs ''id'' \<noteq> None"
  shows "fst (middleware fetch req) =
     (if map_of kvs ''role'' = Some (JStr ''owner'') \<or> map_of kvs ''role'' = Some (JStr ''admin'')
      then Returns Next
      else Returns (Respond ''Forbidden: Admin or Owner access required'' 403))"
proof -
  have okr: "ok r" using assms(4,5) by (simp add: ok_def)
  have ct: "jsonContentType r" unfolding jsonContentType_iff using assms(6) by blast
  have v: "validUser (unwrap d)" unfolding validUser_iff using assms(8,9) by blast
  from guarded_authenticated [where fetch = fetch, OF assms(1) assms(3) okr ct assms(7) v]
  show ?thesis
    by (simp add: assms(8) hasAdminAccess_obj forbidden_def)
qed

theorem authenticated_role_decides_witness:
  "fst (middleware
        (always (Returns \<lparr>status = 200,
           resp_headers = map_of [(''content-type'', ''application/json'')],
           json_body = Returns (JObj [(''id'', JStr ''7''), (''role'', JStr ''Admin'')])\<rparr>))
        \<lparr>nextUrl = \<lparr>protocol = ''https:'', host = ''docs.example.com'', port = '''',
                    pathname = ''/docs/x'', search = []\<rparr>,
         req_headers = map_of [(''cookie'', ''payload-token=abc'')]\<rparr>)
     = Returns (Respond ''Forbidden: Admin or Owner access required'' 403)
   \<and> fst (middleware
        (always (Returns \<lparr>status = 200,
           resp_headers = map_of [(''content-type'', ''application/json'')],
           json_body = Returns (JObj [(''id'', JStr ''7''), (''role'', JStr ''owner'')])\<rparr>))
        \<lparr>nextUrl = \<lparr>protocol = ''https:'', host = ''docs.example.com'', port = '''',
                    pathname = ''/docs/x'', search = []\<rparr>,
         req_headers = map_of [(''cookie'', ''payload-token=abc'')]\<rparr>)
     = Returns Next"
proof -
  let ?req = "\<lparr>nextUrl = \<lparr>protocol = ''https:'', host = ''docs.example.com'', port = '''',
                    pathname = ''/docs/x'', search = []\<rparr>,
         req_headers = map_of [(''cookie'', ''payload-token=abc'')]\<rparr>"
  let ?k1 = "[(''id'', JStr ''7''), (''role'', JStr ''Admin'')]"
  let ?k2 = "[(''id'', JStr ''7''), (''role'', JStr ''owner'')]"
  let ?r1 = "\<lparr>status = 200,
           resp_headers = map_of [(''content-type'', ''application/json'')],
           json_body = Returns (JObj ?k1)\<rparr>"
  let ?r2 = "\<lparr>status = 200,
           resp_headers = map_of [(''content-type'', ''application/json'')],
           json_body = Returns (JObj ?k2)\<rparr>"
  have g: "isFumadocsRoute (pathname (nextUrl ?req))" "\<not> isBypassed (pathname (nextUrl ?req))"
    by (simp_all add: isFumadocsRoute_def isBypassed_def)
  have ct1: "resp_headers ?r1 ''content-type'' = Some ([] @ ''application/json'' @ [])"
    and ct2: "resp_headers ?r2 ''content-type'' = Some ([] @ ''application/json'' @ [])"
    by simp_all
  have u1: "unwrap (JObj ?k1) = Some (JObj ?k1)" and u2: "unwrap (JObj ?k2) = Some (JObj ?k2)"
    by (simp_all add: unwrap_def has_prop_def)
  have 1: "fst (middleware (always (Returns ?r1)) ?req)
      = Returns (Respond ''Forbidden: Admin or Owner access required'' 403)"
    using authenticated_role_decides [where fetch = "always (Returns ?r1)" and r = ?r1
        and d = "JObj ?k1" and kvs = ?k1, OF g _ _ _ ct1 _ u1]
    by (simp add: always_def)
  have 2: "fst (middleware (always (Returns ?r2)) ?req) = Returns Next"
    using authenticated_role_decides [where fetch = "always (Returns ?r2)" and r = ?r2
        and d = "JObj ?k2" and kvs = ?k2, OF g _ _ _ ct2 _ u2]
    by (simp add: always_def)
  from 1 2 show ?thesis by (rule conjI)
qed

text \<open>
  C5, as the claim states it, fails: a candidate whose \<^verbatim>\<open>id\<close> is the empty string is
  accepted as a user, since line 90 tests only that the candidate has an \<^verbatim>\<open>id\<close>
  property. With the role \<^verbatim>\<open>admin\<close> the request is passed through.
\<close>

theorem empty_id_is_accepted:
  "unwrap (JObj [(''id'', JStr ''''), (''role'', JStr ''admin'')])
     = Some (JObj [(''id'', JStr ''''), (''role'', JStr ''admin'')])
   \<and> fst (middleware
        (always (Returns \<lparr>status = 200,
           resp_headers = map_of [(''content-type'', ''application/json'')],
           json_body = Returns (JObj [(''id'', JStr ''''), (''role'', JStr ''admin'')])\<rparr>))
        \<lparr>nextUrl = \<lparr>protocol = ''https:'', host = ''docs.example.com'', port = '''',
                    pathname = ''/docs/x'', search = []\<rparr>,
         req_headers = map_of [(''cookie'', ''payload-token=abc'')]\<rparr>)
     = Returns Next"
  by (simp add: middleware_def isBypassed_def isFumadocsRoute_def catch_def tryBody_def
      identityCall_def always_def ok_def decide_def unwrap_def has_prop_def
      hasAdminAccess_def Let_def)

text \<open>
  C5, amended. On a guarded path, when the identity call returns with a status from 200
  to 299 and a JSON content type and the body parses, a candidate that is not an object
  (\<^verbatim>\<open>null\<close>, a boolean, a number, a string, an array) or that has no \<^verbatim>\<open>id\<close> property gives
  the redirect to the login URL: not the pass-through, not the 403, and no exception.
  An \<^verbatim>\<open>id\<close> that is present is accepted whatever its value.
\<close>

theorem candidate_without_id_redirects:
  assumes "isFumadocsRoute (pathname (nextUrl req))"
    and "\<not> isBypassed (pathname (nextUrl req))"
    and "fetch (identityCall req) = Returns r"
    and "200 \<le> status r" and "status r \<le> 299"
    and "resp_headers r ''content-type'' = Some (a @ ''application/json'' @ b)"
    and "json_body r = Returns d"
    and "\<forall>kvs. unwrap d = Some (JObj kvs) \<longrightarrow> map_of kvs ''id'' = None"
  shows "fst (middleware fetch req) = Returns (Redirect (loginUrl req))
     \<and> fst (middleware fetch req) \<noteq> Returns Next
     \<and> fst (middleware fetch req) \<noteq> Returns (Respond ''Forbidden: Admin or Owner access required'' 403)
     \<and> fst (middleware fetch req) \<noteq> Throws"
proof -
  have "\<not> validUser (unwrap d)"
    unfolding not_validUser_iff using assms(8) .
  with assms(3,7) have "fst (middleware fetch req) = Returns (redirectToLogin req)"
    by (intro guarded_failure [OF assms(1)]) simp
  then show ?thesis by (simp add: redirectToLogin_def)
qed

theorem candidate_without_id_redirects_witness:
  "fst (middleware
        (always (Returns \<lparr>status = 200,
           resp_headers = map_of [(''content-type'', ''application/json'')],
           json_body = Returns (JObj [(''docs'', JArr [JObj [(''role'', JStr ''admin'')]])])\<rparr>))
        \<lparr>nextUrl = \<lparr>protocol = ''https:'', host = ''docs.example.com'', port = '''',
                    pathname = ''/docs/x'', search = []\<rparr>,
         req_headers = map_of [(''cookie'', ''payload-token=abc'')]\<rparr>)
     = Returns (Redirect \<lparr>protocol = ''https:'', host = ''docs.example.com'', port = '''',
                    pathname = ''/admin/login'', search = [(''redirect'', ''/docs/x'')]\<rparr>)"
proof -
  let ?req = "\<lparr>nextUrl = \<lparr>protocol = ''https:'', host = ''docs.example.com'', port = '''',
                    pathname = ''/docs/x'', search = []\<rparr>,
         req_headers = map_of [(''cookie'', ''payload-token=abc'')]\<rparr>"
  let ?d = "JObj [(''docs'', JArr [JObj [(''role'', JStr ''admin'')]])]"
  let ?r = "\<lparr>status = 200,
           resp_headers = map_of [(''content-type'', ''application/json'')],
           json_body = Returns ?d\<rparr>"
  have g: "isFumadocsRoute (pathname (nextUrl ?req))" "\<not> isBypassed (pathname (nextUrl ?req))"
    by (simp_all add: isFumadocsRoute_def isBypassed_def)
  have ct: "resp_headers ?r ''content-type'' = Some ([] @ ''application/json'' @ [])"
    by simp
  have u: "\<forall>kvs. unwrap ?d = Some (JObj kvs) \<longrightarrow> map_of kvs ''id'' = None"
    by (simp add: unwrap_def has_prop_def)
  show ?thesis
    using candidate_without_id_redirects [where fetch = "always (Returns ?r)" and r = ?r
        and d = ?d, OF g _ _ _ ct _ u]
    by (simp add: always_def loginUrl_def)
qed

text \<open>
  C6. The candidate user is chosen from the parsed body by the fixed precedence user,
  docs, doc, bare value: a truthy \<^verbatim>\<open>user\<close> field wins; otherwise the first element of a
  \<^verbatim>\<open>docs\<close> field that is a non-empty array; otherwise a truthy \<^verbatim>\<open>doc\<close> field; otherwise the
  parsed value itself. A falsy \<^verbatim>\<open>user\<close> or \<^verbatim>\<open>doc\<close>, and a \<^verbatim>\<open>docs\<close> that is empty or not an
  array, fall through to the next rule. The unwrapping of lines 78 to 87 computes the
  candidate that the rules of the specification give, on every parsed value.
\<close>

theorem unwrap_follows_precedence:
  "unwrap v = Some (candidate_by_precedence v)"
proof (cases v)
  case (JObj kvs)
  show ?thesis
  proof (cases "rule_user kvs")
    case (Some u)
    then show ?thesis
      by (auto simp: JObj unwrap_def candidate_by_precedence_def has_prop_def rule_user_def
          split: option.splits if_splits)
  next
    case None
    note nu = this
    then have nu': "\<not> (has_prop ''user'' v \<and> truthy_val (get_prop v ''user''))"
      by (auto simp: JObj has_prop_def rule_user_def split: option.splits if_splits)
    show ?thesis
    proof (cases "rule_docs kvs")
      case (Some x)
      then have "\<exists>xs. map_of kvs ''docs'' = Some (JArr (x # xs))"
        by (auto simp: rule_docs_def split: option.splits json.splits list.splits)
      then show ?thesis
        using nu nu' Some
        by (auto simp: JObj unwrap_def candidate_by_precedence_def has_prop_def)
    next
      case None
      then have nd': "\<not> (has_prop ''docs'' v \<and> isArray (get_prop v ''docs'')
          \<and> length (elements (get_prop v ''docs'')) > 0)"
        by (auto simp: JObj has_prop_def rule_docs_def split: option.splits json.splits list.splits)
      show ?thesis
        using nu nu' None nd'
        by (auto simp: JObj unwrap_def candidate_by_precedence_def has_prop_def rule_doc_def
            split: option.splits if_splits)
    qed
  qed
qed (simp_all add: unwrap_def candidate_by_precedence_def has_prop_def)

theorem unwrap_follows_precedence_witness:
  "unwrap (JObj [(''user'', JNull), (''docs'', JArr []),
                 (''doc'', JObj [(''id'', JStr ''7'')]), (''id'', JStr ''1'')])
     = Some (JObj [(''id'', JStr ''7'')])
   \<and> unwrap (JObj [(''user'', JObj [(''id'', JStr ''42'')]),
                 (''docs'', JArr [JObj [(''id'', JStr ''9'')]]),
                 (''doc'', JObj [(''id'', JStr ''7'')])])
     = Some (JObj [(''id'', JStr ''42'')])
   \<and> unwrap (JObj [(''user'', JStr ''''), (''docs'', JArr [JObj [(''id'', JStr ''9'')]]),
                 (''doc'', JObj [(''id'', JStr ''7'')])])
     = Some (JObj [(''id'', JStr ''9'')])
   \<and> unwrap (JObj [(''docs'', JStr ''x''), (''doc'', JBool False), (''id'', JStr ''1'')])
     = Some (JObj [(''docs'', JStr ''x''), (''doc'', JBool False), (''id'', JStr ''1'')])"
  unfolding unwrap_follows_precedence
  by (simp add: candidate_by_precedence_def rule_user_def rule_docs_def rule_doc_def)

text \<open>
  C8. Whatever the request and whatever the identity endpoint does once the call
  settles (throwing, any status, any content type, any body), the middleware returns,
  and what it returns is the pass-through, the redirect to the login URL, or the 403: no
  exception leaves it.
\<close>

theorem middleware_returns_one_of_three:
  "(fst (middleware fetch req) = Returns Next
    \<or> fst (middleware fetch req) = Returns (Redirect (loginUrl req))
    \<or> fst (middleware fetch req) = Returns (Respond ''Forbidden: Admin or Owner access required'' 403))
   \<and> fst (middleware fetch req) \<noteq> Throws
   \<and> pathname (loginUrl req) = ''/admin/login''"
proof -
  have "fst (middleware fetch req) = Returns Next
    \<or> fst (middleware fetch req) = Returns (redirectToLogin req)
    \<or> fst (middleware fetch req) = Returns forbidden"
  proof (cases "isFumadocsRoute (pathname (nextUrl req))")
    case False
    then show ?thesis by (simp add: middleware_def Let_def)
  next
    case True
    note g = this
    from failure_or_authenticated [of fetch req] show ?thesis
    proof
      assume "fetch (identityCall req) = Throws \<or>
       (\<exists>r. fetch (identityCall req) = Returns r \<and>
          (\<not> ok r \<or> status r = 401 \<or> status r = 403 \<or> \<not> jsonContentType r \<or>
           json_body r = Throws \<or>
           (\<exists>d. json_body r = Returns d \<and> \<not> validUser (unwrap d))))"
      from guarded_failure [where fetch = fetch, OF g this] show ?thesis by simp
    next
      assume "\<exists>r d. fetch (identityCall req) = Returns r \<and> ok r \<and> jsonContentType r \<and>
          json_body r = Returns d \<and> validUser (unwrap d)"
      then obtain r d where A: "fetch (identityCall req) = Returns r" "ok r" "jsonContentType r"
        "json_body r = Returns d" "validUser (unwrap d)" by blast
      from guarded_authenticated [where fetch = fetch, OF g A] show ?thesis
        by (cases "hasAdminAccess (unwrap d)") simp_all
    qed
  qed
  then have "(fst (middleware fetch req) = Returns Next
    \<or> fst (middleware fetch req) = Returns (Redirect (loginUrl req))
    \<or> fst (middleware fetch req) = Returns (Respond ''Forbidden: Admin or Owner access required'' 403))"
    unfolding redirectToLogin_def forbidden_def .
  moreover from this have "fst (middleware fetch req) \<noteq> Throws"
    by (elim disjE) simp_all
  ultimately show ?thesis
    by (intro conjI loginUrl_fields(1))
qed

theorem middleware_returns_one_of_three_witness:
  "fst (middleware
        (always (Returns \<lparr>status = 200,
           resp_headers = map_of [(''content-type'', ''application/json'')],
           json_body = Throws\<rparr>))
        \<lparr>nextUrl = \<lparr>protocol = ''https:'', host = ''docs.example.com'', port = '''',
                    pathname = ''/docs-og/banner'', search = []\<rparr>,
         req_headers = map_of []\<rparr>)
     = Returns (Redirect \<lparr>protocol = ''https:'', host = ''docs.example.com'', port = '''',
                    pathname = ''/admin/login'', search = [(''redirect'', ''/docs-og/banner'')]\<rparr>)"
proof -
  let ?req = "\<lparr>nextUrl = \<lparr>protocol = ''https:'', host = ''docs.example.com'', port = '''',
                    pathname = ''/docs-og/banner'', search = []\<rparr>,
         req_headers = map_of []\<rparr>"
  let ?f = "always (Returns \<lparr>status = 200,
           resp_headers = map_of [(''content-type'', ''application/json'')],
           json_body = Throws\<rparr>)"
  have n: "fst (middleware ?f ?req) \<noteq> Returns Next"
    and f: "fst (middleware ?f ?req) \<noteq> Returns (Respond ''Forbidden: Admin or Owner access required'' 403)"
    by (simp_all add: middleware_def isBypassed_def isFumadocsRoute_def catch_def tryBody_def
      identityCall_def always_def ok_def Let_def redirectToLogin_def)
  have l: "loginUrl ?req = \<lparr>protocol = ''https:'', host = ''docs.example.com'', port = '''',
                    pathname = ''/admin/login'', search = [(''redirect'', ''/docs-og/banner'')]\<rparr>"
    by (simp add: loginUrl_def)
  from middleware_returns_one_of_three [of ?f ?req] n f
  have "fst (middleware ?f ?req) = Returns (Redirect (loginUrl ?req))" by blast
  then show ?thesis unfolding l .
qed

text \<open>
  C9. Two evaluations, one after the other, on the same request object, the second in
  the store that the first has left, against endpoints that answer the identity call
  for that request alike, give the same verdict and the same events. Nothing is carried
  from one evaluation to the next: the first assigns only to the URL and headers objects
  it has made itself, so the request's own URL and headers are afterwards as they were,
  and the result is a function of the request and of the answer to that one call.
\<close>

theorem second_evaluation_gives_same_verdict:
  assumes "nextUrl_at rq < length (url_objs s)"
    and "headers_at rq < length (header_objs s)"
    and "fetch1 (identityCall (request_in s rq)) = fetch2 (identityCall (request_in s rq))"
  shows "fst (middleware_obj fetch2 rq (snd (middleware_obj fetch1 rq s)))
           = fst (middleware_obj fetch1 rq s)
     \<and> request_in (snd (middleware_obj fetch1 rq s)) rq = request_in s rq"
proof -
  let ?s' = "snd (middleware_obj fetch1 rq s)"
  have k: "kept s ?s'"
    using assms(1,2) by (rule middleware_obj_refines(2))
  have r: "request_in ?s' rq = request_in s rq"
    using k assms(1,2) by (rule kept_request)
  have u': "nextUrl_at rq < length (url_objs ?s')" and h': "headers_at rq < length (header_objs ?s')"
    using kept_length [OF k] assms(1,2) by simp_all
  have "fst (middleware_obj fetch2 rq ?s') = middleware fetch2 (request_in ?s' rq)"
    using u' h' by (rule middleware_obj_refines(1))
  also have "\<dots> = middleware fetch2 (request_in s rq)"
    by (simp only: r)
  also have "\<dots> = middleware fetch1 (request_in s rq)"
    using assms(3) by (simp add: middleware_def tryBody_def Let_def)
  also have "\<dots> = fst (middleware_obj fetch1 rq s)"
    using assms(1,2) by (rule middleware_obj_refines(1) [symmetric])
  finally show ?thesis using r by simp
qed

theorem second_evaluation_gives_same_verdict_witness:
  "fst (middleware_obj
         (only_for
            (identityCall \<lparr>nextUrl = \<lparr>protocol = ''https:'', host = ''docs.example.com'', port = '''',
                 pathname = ''/docs/intro'', search = [(''page'', ''2'')]\<rparr>,
               req_headers = map_of [(''cookie'', ''payload-token=abc'')]\<rparr>)
            (Returns \<lparr>status = 401, resp_headers = map_of [], json_body = Throws\<rparr>))
         \<lparr>nextUrl_at = 0, headers_at = 0\<rparr>
         (snd (middleware_obj
            (always (Returns \<lparr>status = 401, resp_headers = map_of [], json_body = Throws\<rparr>))
            \<lparr>nextUrl_at = 0, headers_at = 0\<rparr>
            \<lparr>url_objs = [\<lparr>protocol = ''https:'', host = ''docs.example.com'', port = '''',
                 pathname = ''/docs/intro'', search = [(''page'', ''2'')]\<rparr>],
             header_objs = [map_of [(''cookie'', ''payload-token=abc'')]]\<rparr>)))
   = fst (middleware_obj
            (always (Returns \<lparr>status = 401, resp_headers = map_of [], json_body = Throws\<rparr>))
            \<lparr>nextUrl_at = 0, headers_at = 0\<rparr>
            \<lparr>url_objs = [\<lparr>protocol = ''https:'', host = ''docs.example.com'', port = '''',
                 pathname = ''/docs/intro'', search = [(''page'', ''2'')]\<rparr>],
             header_objs = [map_of [(''cookie'', ''payload-token=abc'')]]\<rparr>)
   \<and> fst (fst (middleware_obj
            (always (Returns \<lparr>status = 401, resp_headers = map_of [], json_body = Throws\<rparr>))
            \<lparr>nextUrl_at = 0, headers_at = 0\<rparr>
            \<lparr>url_objs = [\<lparr>protocol = ''https:'', host = ''docs.example.com'', port = '''',
                 pathname = ''/docs/intro'', search = [(''page'', ''2'')]\<rparr>],
             header_objs = [map_of [(''cookie'', ''payload-token=abc'')]]\<rparr>))
     = Returns (Redirect \<lparr>protocol = ''https:'', host = ''docs.example.com'', port = '''',
                 pathname = ''/admin/login'',
                 search = [(''page'', ''2''), (''redirect'', ''/docs/intro'')]\<rparr>)"
proof -
  let ?u = "\<lparr>protocol = ''https:'', host = ''docs.example.com'', port = '''',
                 pathname = ''/docs/intro'', search = [(''page'', ''2'')]\<rparr>"
  let ?hs = "map_of [(''cookie'', ''payload-token=abc'')]"
  let ?s = "\<lparr>url_objs = [?u], header_objs = [?hs]\<rparr>"
  let ?rq = "\<lparr>nextUrl_at = 0, headers_at = 0\<rparr>"
  let ?a = "Returns \<lparr>status = 401, resp_headers = map_of [], json_body = Throws\<rparr>"
  have wf: "nextUrl_at ?rq < length (url_objs ?s)" "headers_at ?rq < length (header_objs ?s)"
    by simp_all
  have same: "always ?a (identityCall (request_in ?s ?rq))
      = only_for (identityCall \<lparr>nextUrl = ?u, req_headers = ?hs\<rparr>) ?a (identityCall (request_in ?s ?rq))"
    by (simp add: request_in_def always_def only_for_def)
  have v: "fst (fst (middleware_obj (always ?a) ?rq ?s))
     = Returns (Redirect \<lparr>protocol = ''https:'', host = ''docs.example.com'', port = '''',
                 pathname = ''/admin/login'',
                 search = [(''page'', ''2''), (''redirect'', ''/docs/intro'')]\<rparr>)"
    unfolding middleware_obj_refines(1) [OF wf]
    by (simp add: request_in_def middleware_def isBypassed_def
        isFumadocsRoute_def catch_def tryBody_def always_def ok_def redirectToLogin_def
        loginUrl_def Let_def)
  from second_evaluation_gives_same_verdict [where ?fetch1.0 = "always ?a"
      and ?fetch2.0 = "only_for (identityCall \<lparr>nextUrl = ?u, req_headers = ?hs\<rparr>) ?a",
      OF wf same] v
  show ?thesis by simp
qed

text \<open>
  C10. On a guarded path, when the identity call returns with a status from 200 to 299,
  the body is read as JSON exactly when the answer has a content type containing
  \<^verbatim>\<open>application/json\<close> somewhere in its value. With no content type, or one without
  that substring, the verdict is the redirect to the login URL and the body is not read:
  the only event is the call.
\<close>

theorem body_read_iff_json_content_type:
  assumes "isFumadocsRoute (pathname (nextUrl req))"
    and "\<not> isBypassed (pathname (nextUrl req))"
    and "fetch (identityCall req) = Returns r"
    and "200 \<le> status r" and "status r \<le> 299"
  shows "(ReadJson \<in> set (snd (middleware fetch req)) \<longleftrightarrow>
            (\<exists>a b. resp_headers r ''content-type'' = Some (a @ ''application/json'' @ b)))
     \<and> ((\<forall>a b. resp_headers r ''content-type'' \<noteq> Some (a @ ''application/json'' @ b)) \<longrightarrow>
            middleware fetch req = (Returns (Redirect (loginUrl req)), [Fetch (identityCall req)]))"
proof -
  have okr: "ok r" using assms(4,5) by (simp add: ok_def)
  show ?thesis
  proof (cases "jsonContentType r")
    case True
    with assms(1,3) okr have "ReadJson \<in> set (snd (middleware fetch req))"
      by (cases "json_body r") (simp_all add: guarded_json_throws guarded_json_parsed)
    with True show ?thesis
      unfolding jsonContentType_iff by blast
  next
    case False
    with assms(1,3) okr
    have "middleware fetch req = (Returns (redirectToLogin req), [Fetch (identityCall req)])"
      by (simp add: guarded_bad_content_type)
    with False show ?thesis
      unfolding jsonContentType_iff by (simp add: redirectToLogin_def)
  qed
qed

theorem body_read_iff_json_content_type_witness:
  "snd (middleware
        (always (Returns \<lparr>status = 200,
           resp_headers = map_of [(''content-type'', ''text/html'')],
           json_body = Returns (JObj [(''id'', JStr ''7''), (''role'', JStr ''admin'')])\<rparr>))
        \<lparr>nextUrl = \<lparr>protocol = ''https:'', host = ''docs.example.com'', port = '''',
                    pathname = ''/docs-og/banner'', search = []\<rparr>,
         req_headers = map_of []\<rparr>)
     = [Fetch (identityCall
        \<lparr>nextUrl = \<lparr>protocol = ''https:'', host = ''docs.example.com'', port = '''',
                    pathname = ''/docs-og/banner'', search = []\<rparr>,
         req_headers = map_of []\<rparr>)]
   \<and> ReadJson \<in> set (snd (middleware
        (always (Returns \<lparr>status = 200,
           resp_headers = map_of [(''content-type'', ''application/json; charset=utf-8'')],
           json_body = Returns (JObj [(''id'', JStr ''7''), (''role'', JStr ''admin'')])\<rparr>))
        \<lparr>nextUrl = \<lparr>protocol = ''https:'', host = ''docs.example.com'', port = '''',
                    pathname = ''/docs-og/banner'', search = []\<rparr>,
         req_headers = map_of []\<rparr>))"
proof -
  let ?req = "\<lparr>nextUrl = \<lparr>protocol = ''https:'', host = ''docs.example.com'', port = '''',
                    pathname = ''/docs-og/banner'', search = []\<rparr>,
         req_headers = map_of []\<rparr>"
  let ?r1 = "\<lparr>status = 200,
           resp_headers = map_of [(''content-type'', ''text/html'')],
           json_body = Returns (JObj [(''id'', JStr ''7''), (''role'', JStr ''admin'')])\<rparr>"
  let ?r2 = "\<lparr>status = 200,
           resp_headers = map_of [(''content-type'', ''application/json; charset=utf-8'')],
           json_body = Returns (JObj [(''id'', JStr ''7''), (''role'', JStr ''admin'')])\<rparr>"
  have g: "isFumadocsRoute (pathname (nextUrl ?req))" "\<not> isBypassed (pathname (nextUrl ?req))"
    by (simp_all add: isFumadocsRoute_def isBypassed_def)
  have c1: "\<forall>a b. resp_headers ?r1 ''content-type'' \<noteq> Some (a @ ''application/json'' @ b)"
    using includes_str_iff [of "''text/html''" "''application/json''"] by simp
  have c2: "\<exists>a b. resp_headers ?r2 ''content-type'' = Some (a @ ''application/json'' @ b)"
    using includes_str_iff [of "''application/json; charset=utf-8''" "''application/json''"] by simp
  have 1: "snd (middleware (always (Returns ?r1)) ?req) = [Fetch (identityCall ?req)]"
    using body_read_iff_json_content_type [where fetch = "always (Returns ?r1)" and r = ?r1, OF g] c1
    by (simp add: always_def)
  have 2: "ReadJson \<in> set (snd (middleware (always (Returns ?r2)) ?req))"
    using body_read_iff_json_content_type [where fetch = "always (Returns ?r2)" and r = ?r2, OF g] c2
    by (simp add: always_def)
  from 1 2 show ?thesis by (rule conjI)
qed

text \<open>
  C7, as the claim states it, fails: a \<^verbatim>\<open>cookie\<close> header that is present with the empty
  string as its value is not forwarded. Line 39 tests the value for truthiness, so the
  outbound call carries no \<^verbatim>\<open>cookie\<close> header at all.
\<close>

theorem empty_cookie_is_not_forwarded:
  "req_headers
     \<lparr>nextUrl = \<lparr>protocol = ''https:'', host = ''docs.example.com'', port = '''',
                 pathname = ''/docs/intro'', search = []\<rparr>,
      req_headers = map_of [(''cookie'', '''')]\<rparr> ''cookie'' = Some ''''
   \<and> calls (snd (middleware (always Throws)
        \<lparr>nextUrl = \<lparr>protocol = ''https:'', host = ''docs.example.com'', port = '''',
                    pathname = ''/docs/intro'', search = []\<rparr>,
         req_headers = map_of [(''cookie'', '''')]\<rparr>))
     = [identityCall
        \<lparr>nextUrl = \<lparr>protocol = ''https:'', host = ''docs.example.com'', port = '''',
                    pathname = ''/docs/intro'', search = []\<rparr>,
         req_headers = map_of [(''cookie'', '''')]\<rparr>]
   \<and> fc_headers (identityCall
        \<lparr>nextUrl = \<lparr>protocol = ''https:'', host = ''docs.example.com'', port = '''',
                    pathname = ''/docs/intro'', search = []\<rparr>,
         req_headers = map_of [(''cookie'', '''')]\<rparr>) ''cookie'' = None"
  by (simp add: middleware_def isBypassed_def isFumadocsRoute_def catch_def tryBody_def
      always_def Let_def identityCall_def outboundHeaders_def)

text \<open>
  C7, amended. On a guarded path exactly one outbound call is made, and never a second
  one: a \<^verbatim>\<open>GET\<close> with no body to the request's own URL with the path replaced by
  \<^verbatim>\<open>/api/users/me\<close> and the query cleared, protocol, host and port unchanged. The
  \<^verbatim>\<open>cookie\<close> header is forwarded verbatim when it is present and not empty, and is left
  out when it is absent or empty; the \<^verbatim>\<open>user-agent\<close> header is always sent, with the
  request's value, or the empty string when the request has none; no other header is
  sent.
\<close>

theorem guarded_makes_one_identity_call:
  assumes "isFumadocsRoute (pathname (nextUrl req))"
    and "\<not> isBypassed (pathname (nextUrl req))"
  shows "calls (snd (middleware fetch req)) = [identityCall req]
     \<and> fc_method (identityCall req) = ''GET''
     \<and> fc_body (identityCall req) = None
     \<and> fc_url (identityCall req) = (nextUrl req)\<lparr>pathname := ''/api/users/me'', search := []\<rparr>
     \<and> protocol (fc_url (identityCall req)) = protocol (nextUrl req)
     \<and> host (fc_url (identityCall req)) = host (nextUrl req)
     \<and> port (fc_url (identityCall req)) = port (nextUrl req)
     \<and> fc_headers (identityCall req) ''cookie''
          = (case req_headers req ''cookie'' of
               None \<Rightarrow> None
             | Some c \<Rightarrow> if c = [] then None else Some c)
     \<and> fc_headers (identityCall req) ''user-agent''
          = Some (case req_headers req ''user-agent'' of None \<Rightarrow> [] | Some u \<Rightarrow> u)
     \<and> dom (fc_headers (identityCall req)) \<subseteq> {''cookie'', ''user-agent''}"
proof -
  have c: "fc_headers (identityCall req) ''cookie''
          = (case req_headers req ''cookie'' of
               None \<Rightarrow> None
             | Some c \<Rightarrow> if c = [] then None else Some c)"
    by (simp add: identityCall_def outboundHeaders_def Let_def split: option.splits)
  have u: "fc_headers (identityCall req) ''user-agent''
          = Some (case req_headers req ''user-agent'' of None \<Rightarrow> [] | Some u \<Rightarrow> u)"
    by (simp add: identityCall_def outboundHeaders_def Let_def split: option.splits)
  have d: "dom (fc_headers (identityCall req)) \<subseteq> {''cookie'', ''user-agent''}"
    by (auto simp: identityCall_def outboundHeaders_def Let_def split: if_splits)
  have rest: "fc_method (identityCall req) = ''GET''" "fc_body (identityCall req) = None"
    "fc_url (identityCall req) = (nextUrl req)\<lparr>pathname := ''/api/users/me'', search := []\<rparr>"
    "protocol (fc_url (identityCall req)) = protocol (nextUrl req)"
    "host (fc_url (identityCall req)) = host (nextUrl req)"
    "port (fc_url (identityCall req)) = port (nextUrl req)"
    by (simp_all add: identityCall_def Let_def)
  show ?thesis
    by (intro conjI guarded_calls [OF assms(1)] rest c u d)
qed

theorem guarded_makes_one_identity_call_witness:
  "calls (snd (middleware
        (always (Returns \<lparr>status = 200,
           resp_headers = map_of [(''content-type'', ''application/json'')],
           json_body = Returns (JObj [(''id'', JStr ''7''), (''role'', JStr ''admin'')])\<rparr>))
        \<lparr>nextUrl = \<lparr>protocol = ''https:'', host = ''docs.example.com'', port = ''8443'',
                    pathname = ''/docs/intro'', search = [(''page'', ''2'')]\<rparr>,
         req_headers = map_of [(''cookie'', ''payload-token=abc'')]\<rparr>))
     = [identityCall
        \<lparr>nextUrl = \<lparr>protocol = ''https:'', host = ''docs.example.com'', port = ''8443'',
                    pathname = ''/docs/intro'', search = [(''page'', ''2'')]\<rparr>,
         req_headers = map_of [(''cookie'', ''payload-token=abc'')]\<rparr>]
   \<and> fc_url (identityCall
        \<lparr>nextUrl = \<lparr>protocol = ''https:'', host = ''docs.example.com'', port = ''8443'',
                    pathname = ''/docs/intro'', search = [(''page'', ''2'')]\<rparr>,
         req_headers = map_of [(''cookie'', ''payload-token=abc'')]\<rparr>)
     = \<lparr>protocol = ''https:'', host = ''docs.example.com'', port = ''8443'',
          pathname = ''/api/users/me'', search = []\<rparr>
   \<and> fc_headers (identityCall
        \<lparr>nextUrl = \<lparr>protocol = ''https:'', host = ''docs.example.com'', port = ''8443'',
                    pathname = ''/docs/intro'', search = [(''page'', ''2'')]\<rparr>,
         req_headers = map_of [(''cookie'', ''payload-token=abc'')]\<rparr>) ''cookie''
     = Some ''payload-token=abc''
   \<and> fc_headers (identityCall
        \<lparr>nextUrl = \<lparr>protocol = ''https:'', host = ''docs.example.com'', port = ''8443'',
                    pathname = ''/docs/intro'', search = [(''page'', ''2'')]\<rparr>,
         req_headers = map_of [(''cookie'', ''payload-token=abc'')]\<rparr>) ''user-agent''
     = Some ''''"
proof -
  let ?req = "\<lparr>nextUrl = \<lparr>protocol = ''https:'', host = ''docs.example.com'', port = ''8443'',
                    pathname = ''/docs/intro'', search = [(''page'', ''2'')]\<rparr>,
         req_headers = map_of [(''cookie'', ''payload-token=abc'')]\<rparr>"
  have g: "isFumadocsRoute (pathname (nextUrl ?req))" "\<not> isBypassed (pathname (nextUrl ?req))"
    by (simp_all add: isFumadocsRoute_def isBypassed_def)
  show ?thesis
    using guarded_makes_one_identity_call [where req = ?req, OF g]
    by simp
qed

end
